theory Spec2Isabelle
  imports Main "HOL-Library.Word" "HOL-Library.Signed_Division" "HOL-Library.Sublist"
    "HOL-Library.AList"
begin

section \<open>Shared vocabulary\<close>

text \<open>
  The embedding follows the \<^verbatim>\<open>_WIN32\<close> build of the sources: the bodies of
  \<^verbatim>\<open>checkLeagueProcessCount\<close> and \<^verbatim>\<open>checkVgcService\<close> exist only there.
  Every function of the program becomes a function from the object's state and the values
  the operating system hands back during the call to the new state and the list of calls
  made on the collaborators (logger, process utilities, launcher, registered handlers), in
  program order.
\<close>

type_synonym u32 = "32 word"

text \<open>\<^verbatim>\<open>std::to_string\<close> on an unsigned value: its decimal digits.\<close>

function to_string :: "nat \<Rightarrow> string" where
  "to_string n =
     (if n < 10 then [char_of (48 + n)]
      else to_string (n div 10) @ [char_of (48 + n mod 10)])"
  by pat_completeness auto
termination
  by (relation "measure id") auto

declare to_string.simps [simp del]

text \<open>The four methods of \<^verbatim>\<open>Logger\<close>.\<close>

datatype level = Info | Warn | Error | Success

text \<open>
  The log statements of \<^verbatim>\<open>client_monitor.cpp\<close> and of the functions of
  \<^verbatim>\<open>process_utils.cpp\<close> modelled below, each with the values it prints;
  \<open>text_of\<close> gives the text.
\<close>

datatype line =
    MonitorAlreadyRunning | StartingMonitor | MonitorStarted
  | ClientCooldown u32 | ClientNotRunning | TerminatingVgc | ClientRestarted
  | WaitingForClient | ClientDetected | ClientNotDetected | ClientRestartFailed
  | GameDetected | GameKilled u32 | GameKillFailed
  | ProcessCount u32 | CountReached u32 | ImmediateStartNotSet | CountDropped u32
  | VgcDetected | VgcKillingClient | VgcKillingRiot | VgcCooldown u32 | VgcRestarting
  | VgcRestarted | VgcWaiting | VgcClientDetected | VgcClientNotDetected
  | VgcNotifying | VgcRestartNotSet | VgcRestartFailed | VgcStillDetected | VgcCleared
  | PidGone u32 | PidKilled u32 | KilledInstances u32 string

primrec text_of :: "line \<Rightarrow> string" where
  "text_of MonitorAlreadyRunning = ''Monitor already running''"
| "text_of StartingMonitor = ''Starting League Client monitor...''"
| "text_of MonitorStarted = ''Monitor started successfully''"
| "text_of (ClientCooldown r) =
     ''LeagueClient not running, but in cooldown period ('' @ to_string (unat r)
     @ ''s remaining). Skipping restart.''"
| "text_of ClientNotRunning = ''LeagueClient is not running, restarting...''"
| "text_of TerminatingVgc = ''Terminating VGC process before restarting League Client...''"
| "text_of ClientRestarted = ''LeagueClient restarted successfully''"
| "text_of WaitingForClient = ''Waiting for LeagueClient process to appear...''"
| "text_of ClientDetected = ''LeagueClient process detected''"
| "text_of ClientNotDetected =
     ''LeagueClient process not detected after 15 seconds, but launch was successful''"
| "text_of ClientRestartFailed = ''Failed to restart LeagueClient''"
| "text_of GameDetected = ''League of Legends game process detected! Killing immediately...''"
| "text_of (GameKilled n) = ''Killed '' @ to_string (unat n) @ '' game process(es)''"
| "text_of GameKillFailed = ''Failed to kill game process''"
| "text_of (ProcessCount n) = ''League of Legends process count: '' @ to_string (unat n)"
| "text_of (CountReached n) =
     to_string (unat n)
     @ '' League of Legends processes detected (>=8)! Sending immediate start command to followers...''"
| "text_of ImmediateStartNotSet =
     ''Process count >= 8 but onImmediateStart callback is not set!''"
| "text_of (CountDropped n) =
     ''League of Legends process count dropped to '' @ to_string (unat n)
     @ '' (below 8), resetting immediate start flag''"
| "text_of VgcDetected = ''VGC service exit code 185 detected! Restarting League Client...''"
| "text_of VgcKillingClient = ''Killing existing League Client due to VGC exit code 185...''"
| "text_of VgcKillingRiot = ''Killing RiotClientServices...''"
| "text_of (VgcCooldown r) =
     ''VGC exit code 185 detected, but in cooldown period ('' @ to_string (unat r)
     @ ''s remaining). Skipping restart.''"
| "text_of VgcRestarting = ''Restarting League Client due to VGC exit code 185...''"
| "text_of VgcRestarted = ''League Client restarted successfully due to VGC exit code 185''"
| "text_of VgcWaiting = ''Waiting for League Client process to appear...''"
| "text_of VgcClientDetected = ''League Client process detected''"
| "text_of VgcClientNotDetected =
     ''League Client process not detected after 15 seconds, but launch was successful''"
| "text_of VgcNotifying = ''Notifying followers about restart due to VGC exit code 185...''"
| "text_of VgcRestartNotSet = ''VGC exit code 185 detected but onRestart callback is not set!''"
| "text_of VgcRestartFailed = ''Failed to restart League Client due to VGC exit code 185''"
| "text_of VgcStillDetected =
     ''VGC service exit code 185 still detected (already triggered restart)''"
| "text_of VgcCleared = ''VGC service exit code is no longer 185, resetting trigger flag''"
| "text_of (PidGone p) =
     ''Process with PID '' @ to_string (unat p) @ '' already terminated or doesn't exist''"
| "text_of (PidKilled p) = ''Killed process with PID: '' @ to_string (unat p)"
| "text_of (KilledInstances n name) =
     ''Killed '' @ to_string (unat n) @ '' instance(s) of '' @ name"

declare text_of.simps [simp del]

text \<open>
  A call on a collaborator. \<open>Log l x\<close> is the log statement \<open>x\<close> issued through the logger's
  method \<open>l\<close>; \<open>LaunchLeagueClient b\<close> is a call of
  \<^verbatim>\<open>LeagueUtils::launchLeagueClient()\<close> that returned \<open>b\<close>; \<open>KillProcess p\<close> is a call of
  \<^verbatim>\<open>ProcessUtils::killProcess(p)\<close>; \<open>OnImmediateStart\<close> and \<open>OnRestart\<close> are invocations of
  the two handlers registered on the monitor; durations are in milliseconds.
\<close>

datatype effect =
    Log level line
  | KillVgcProcess
  | KillProcessByName string
  | KillProcess u32
  | Sleep nat
  | LaunchLeagueClient bool
  | WaitForProcess string nat
  | OnImmediateStart
  | OnRestart

text \<open>\<^verbatim>\<open>LeagueUtils::getLeagueClientProcessName\<close> and its neighbours.\<close>

definition getLeagueClientProcessName :: string where
  "getLeagueClientProcessName = ''LeagueClient''"

definition getRiotClientServicesProcessName :: string where
  "getRiotClientServicesProcessName = ''RiotClientServices''"

definition getLeagueGameProcessNames :: "string list" where
  "getLeagueGameProcessNames =
     [''League Of Legends.exe'', ''League Of Legends'',
      ''League of Legends.exe'', ''League of Legends'',
      ''league of legends.exe'', ''league of legends'']"

section \<open>The monitor's state\<close>

text \<open>
  The fields of \<^verbatim>\<open>ClientMonitor\<close> (client_monitor.h) without their trailing underscore.
  A \<^verbatim>\<open>std::function\<close> field is modelled by whether it holds a target.
  \<^verbatim>\<open>restartCooldown_\<close> is the constant 30000.

  A clock reading is the value of the steady clock in whole milliseconds, as
  \<^verbatim>\<open>duration_cast<milliseconds>(now.time_since_epoch()).count()\<close> gives it. The program
  subtracts a stored time from a reading before it casts the difference to milliseconds;
  that is the difference of the two millisecond values whenever the reading is not before
  the stored time, which a steady clock guarantees. The 64-bit counts are modelled by
  unbounded integers.
\<close>

record monitor =
  monitorInterval :: u32
  isMonitoring :: bool
  onImmediateStart :: bool
  onRestart :: bool
  lastProcessCount :: u32
  immediateStartTriggered :: bool
  lastRestartTime :: int
  lastLogTime :: int
  lastVgcCheckTime :: int
  vgcRestartTriggered :: bool

definition restartCooldown :: int where
  "restartCooldown = 30000"

text \<open>The constructor, with the in-class initialisers of the header.\<close>

definition ClientMonitor :: "u32 \<Rightarrow> monitor" where
  "ClientMonitor interval =
     \<lparr> monitorInterval = interval, isMonitoring = False,
       onImmediateStart = False, onRestart = False,
       lastProcessCount = 0, immediateStartTriggered = False,
       lastRestartTime = 0, lastLogTime = 0, lastVgcCheckTime = 0,
       vgcRestartTriggered = False \<rparr>"

definition setImmediateStartCallback :: "monitor \<Rightarrow> monitor" where
  "setImmediateStartCallback s = s\<lparr>onImmediateStart := True\<rparr>"

definition setRestartCallback :: "monitor \<Rightarrow> monitor" where
  "setRestartCallback s = s\<lparr>onRestart := True\<rparr>"

text \<open>
  \<^verbatim>\<open>uint32_t remainingSeconds = (restartCooldown_ - timeSinceLastRestart.count()) / 1000\<close>:
  the subtraction and the division are done on 64-bit signed values (the division truncates
  towards zero), the result is narrowed to 32 bits.
\<close>

definition remainingSeconds :: "int \<Rightarrow> u32" where
  "remainingSeconds timeSince = word_of_int ((restartCooldown - timeSince) sdiv 1000)"

section \<open>Primary-process liveness check\<close>

text \<open>
  What \<^verbatim>\<open>checkAndRestartClient\<close> reads from outside: the pids returned by
  \<^verbatim>\<open>getProcessPids\<close>, the answer of \<^verbatim>\<open>isProcessRunning\<close>, the clock reading taken for
  the cooldown test, the result of the launch, the clock reading taken after a successful
  launch, and the result of \<^verbatim>\<open>waitForProcess\<close>.
\<close>

record restart_in =
  processPids :: "u32 list"
  isRunning :: bool
  restartNow :: int
  launchOk :: bool
  nowAfterLaunch :: int
  processAppeared :: bool

definition checkAndRestartClient :: "monitor \<Rightarrow> restart_in \<Rightarrow> monitor \<times> effect list" where
  "checkAndRestartClient s i =
     (let processName = getLeagueClientProcessName;
          processCount = (of_nat (length (processPids i)) :: u32)
      in if processCount \<ge> 1 then (s, [])
         else if isRunning i then (s, [])
         else
           let timeSinceLastRestart = restartNow i - lastRestartTime s
           in if timeSinceLastRestart < restartCooldown
              then (s, [Log Info (ClientCooldown (remainingSeconds timeSinceLastRestart))])
              else
                let pre = [Log Warn ClientNotRunning, Log Info TerminatingVgc,
                           KillVgcProcess, Sleep 2000, LaunchLeagueClient (launchOk i)]
                in if launchOk i
                   then (s\<lparr>lastRestartTime := nowAfterLaunch i\<rparr>,
                         pre @ [Log Success ClientRestarted, Log Info WaitingForClient,
                                WaitForProcess processName 15000,
                                if processAppeared i then Log Success ClientDetected
                                else Log Warn ClientNotDetected])
                   else (s, pre @ [Log Error ClientRestartFailed]))"

section \<open>Process utilities on a process table\<close>

text \<open>
  The part of \<^verbatim>\<open>ProcessUtils\<close> that the managed-game kill check runs through, over the
  table of processes a tool-help snapshot enumerates (one \<^verbatim>\<open>PROCESSENTRY32\<close> per process).
  Between the calls of one check the table changes only by the check's own kills.
\<close>

record process =
  th32ProcessID :: u32
  szExeFile :: string

text \<open>\<^verbatim>\<open>::tolower\<close> in the C locale.\<close>

definition tolower :: "char \<Rightarrow> char" where
  "tolower c =
     (let n = (of_char c :: nat)
      in if 65 \<le> n \<and> n \<le> 90 then char_of (n + 32) else c)"

text \<open>\<^verbatim>\<open>s.find(p) != std::string::npos\<close>.\<close>

fun find_str :: "string \<Rightarrow> string \<Rightarrow> bool" where
  "find_str p [] = (p = [])"
| "find_str p (c # cs) = (prefix p (c # cs) \<or> find_str p cs)"

definition processNameExe :: "string \<Rightarrow> string" where
  "processNameExe processName =
     (let l = map tolower processName
      in if find_str ''.exe'' l then l else l @ ''.exe'')"

text \<open>The comparison both \<^verbatim>\<open>isProcessRunning\<close> and \<^verbatim>\<open>getProcessPids\<close> apply to an entry.\<close>

definition matches :: "string \<Rightarrow> process \<Rightarrow> bool" where
  "matches processName entry = (map tolower (szExeFile entry) = processNameExe processName)"

definition isProcessRunning :: "string \<Rightarrow> process list \<Rightarrow> bool" where
  "isProcessRunning processName snapshot = (filter (matches processName) snapshot \<noteq> [])"

definition getProcessPids :: "string \<Rightarrow> process list \<Rightarrow> u32 list" where
  "getProcessPids processName snapshot =
     map th32ProcessID (filter (matches processName) snapshot)"

fun isAnyProcessRunning :: "string list \<Rightarrow> process list \<Rightarrow> bool" where
  "isAnyProcessRunning [] snapshot = False"
| "isAnyProcessRunning (processName # processNames) snapshot =
     (if isProcessRunning processName snapshot then True
      else isAnyProcessRunning processNames snapshot)"

text \<open>
  What \<^verbatim>\<open>killProcess\<close> can meet: \<^verbatim>\<open>OpenProcess\<close> gives no handle (the function reports
  success), \<^verbatim>\<open>TerminateProcess\<close> succeeds (the process leaves the table), or it fails.
\<close>

datatype kill_outcome = NoHandle | Terminated | Refused

definition killProcess ::
  "(u32 \<Rightarrow> kill_outcome) \<Rightarrow> u32 \<Rightarrow> process list \<Rightarrow> bool \<times> process list \<times> effect list" where
  "killProcess outcome pid procs =
     (case outcome pid of
        NoHandle \<Rightarrow> (True, procs, [KillProcess pid, Log Info (PidGone pid)])
      | Terminated \<Rightarrow>
          (True, filter (\<lambda>e. th32ProcessID e \<noteq> pid) procs,
           [KillProcess pid, Log Info (PidKilled pid)])
      | Refused \<Rightarrow> (False, procs, [KillProcess pid]))"

text \<open>The \<^verbatim>\<open>for (uint32_t pid : pids)\<close> loop of \<^verbatim>\<open>killProcessByName\<close>.\<close>

fun killPids ::
  "(u32 \<Rightarrow> kill_outcome) \<Rightarrow> u32 list \<Rightarrow> process list \<Rightarrow> u32 \<Rightarrow> u32 \<times> process list \<times> effect list" where
  "killPids outcome [] procs killedCount = (killedCount, procs, [])"
| "killPids outcome (pid # pids) procs killedCount =
     (let (ok, procs1, e1) = killProcess outcome pid procs;
          (n, procs2, e2) = killPids outcome pids procs1 (if ok then killedCount + 1 else killedCount)
      in (n, procs2, e1 @ e2))"

definition killProcessByName ::
  "(u32 \<Rightarrow> kill_outcome) \<Rightarrow> string \<Rightarrow> process list \<Rightarrow> u32 \<times> process list \<times> effect list" where
  "killProcessByName outcome processName procs =
     (let pids = getProcessPids processName procs;
          (killedCount, procs1, e) = killPids outcome pids procs 0
      in (killedCount, procs1,
          e @ (if killedCount > 0 then [Log Info (KilledInstances killedCount processName)]
               else [])))"

text \<open>The loop of \<^verbatim>\<open>killProcessByMultipleNames\<close>, \<open>totalKilled\<close> being its accumulator.\<close>

fun killNames ::
  "(u32 \<Rightarrow> kill_outcome) \<Rightarrow> string list \<Rightarrow> process list \<Rightarrow> u32 \<Rightarrow> u32 \<times> process list \<times> effect list" where
  "killNames outcome [] procs totalKilled = (totalKilled, procs, [])"
| "killNames outcome (processName # processNames) procs totalKilled =
     (let (k, procs1, e1) = killProcessByName outcome processName procs;
          (n, procs2, e2) = killNames outcome processNames procs1 (totalKilled + k)
      in (n, procs2, e1 @ e2))"

definition killProcessByMultipleNames ::
  "(u32 \<Rightarrow> kill_outcome) \<Rightarrow> string list \<Rightarrow> process list \<Rightarrow> u32 \<times> process list \<times> effect list" where
  "killProcessByMultipleNames outcome processNames procs = killNames outcome processNames procs 0"

section \<open>Managed-game kill check\<close>

record kill_in =
  processes :: "process list"
  killOutcome :: "u32 \<Rightarrow> kill_outcome"

text \<open>The check returns the monitor, the process table it leaves, and its calls.\<close>

definition checkAndKillGame :: "monitor \<Rightarrow> kill_in \<Rightarrow> monitor \<times> process list \<times> effect list" where
  "checkAndKillGame s i =
     (let gameProcessNames = getLeagueGameProcessNames;
          isGameRunning = isAnyProcessRunning gameProcessNames (processes i)
      in if isGameRunning
         then
           let (killedCount, procs1, e) =
                 killProcessByMultipleNames (killOutcome i) gameProcessNames (processes i)
           in (s, procs1,
               [Log Warn GameDetected] @ e
               @ [if killedCount > 0 then Log Success (GameKilled killedCount)
                  else Log Warn GameKillFailed])
         else (s, processes i, []))"

section \<open>Instance-count threshold check\<close>

text \<open>
  What \<^verbatim>\<open>checkLeagueProcessCount\<close> reads from outside: the count returned by
  \<^verbatim>\<open>getProcessCountByDescription("League of Legends")\<close> and the clock.

  The body stands in a \<^verbatim>\<open>try\<close> block whose \<^verbatim>\<open>catch (...)\<close> logs an error. Nothing the body
  calls throws in this program (the handler \<^verbatim>\<open>controller/main.cpp\<close> registers ends in
  \<^verbatim>\<open>send\<close>, which catches), so the clause is left out; the same holds for the watchdog check.
\<close>

record count_in =
  observedCount :: u32
  countNow :: int

definition checkLeagueProcessCount :: "monitor \<Rightarrow> count_in \<Rightarrow> monitor \<times> effect list" where
  "checkLeagueProcessCount s i =
     (let processCount = observedCount i;
          (s1, e1) =
            (if processCount \<noteq> lastProcessCount s
             then (s\<lparr>lastProcessCount := processCount\<rparr>, [Log Info (ProcessCount processCount)])
             else
               let timeSinceLastLog = countNow i - lastLogTime s
               in if lastLogTime s = 0 \<or> timeSinceLastLog > 30000
                  then (s\<lparr>lastLogTime := countNow i\<rparr>, [Log Info (ProcessCount processCount)])
                  else (s, []));
          (s2, e2) =
            (if processCount \<ge> 8 \<and> \<not> immediateStartTriggered s1
             then if onImmediateStart s1
                  then (s1\<lparr>immediateStartTriggered := True\<rparr>,
                        [Log Success (CountReached processCount), OnImmediateStart])
                  else (s1, [Log Success (CountReached processCount),
                             Log Warn ImmediateStartNotSet])
             else (s1, []));
          (s3, e3) =
            (if processCount < 8 \<and> immediateStartTriggered s2
             then (s2\<lparr>immediateStartTriggered := False\<rparr>,
                   [Log Info (CountDropped processCount)])
             else (s2, []))
      in (s3, e1 @ e2 @ e3))"

section \<open>Watchdog-failure check\<close>

text \<open>
  What \<^verbatim>\<open>checkVgcService\<close> reads from outside: the answer of
  \<^verbatim>\<open>checkVgcServiceExitCode185\<close>, whether the client and \<^verbatim>\<open>RiotClientServices\<close> run,
  the clock (read once on every path), the result of the launch and of
  \<^verbatim>\<open>waitForProcess\<close>.
\<close>

record vgc_in =
  exitCode185 :: bool
  clientRunning :: bool
  riotClientServicesRunning :: bool
  vgcNow :: int
  vgcLaunchOk :: bool
  vgcProcessAppeared :: bool

definition checkVgcService :: "monitor \<Rightarrow> vgc_in \<Rightarrow> monitor \<times> effect list" where
  "checkVgcService s i =
     (if exitCode185 i then
        if \<not> vgcRestartTriggered s then
          let s1 = s\<lparr>vgcRestartTriggered := True\<rparr>;
              processName = getLeagueClientProcessName;
              riotClientServicesName = getRiotClientServicesProcessName;
              kills =
                [Log Warn VgcDetected, KillVgcProcess]
                @ (if clientRunning i
                   then [Log Info VgcKillingClient, KillProcessByName processName]
                        @ (if riotClientServicesRunning i
                           then [Log Info VgcKillingRiot,
                                 KillProcessByName riotClientServicesName]
                           else [])
                        @ [Sleep 2000]
                   else []);
              timeSinceLastRestart = vgcNow i - lastRestartTime s1
          in if timeSinceLastRestart < restartCooldown
             then (s1, kills @ [Log Info (VgcCooldown (remainingSeconds timeSinceLastRestart))])
             else
               let launch = kills @ [Log Info VgcRestarting, LaunchLeagueClient (vgcLaunchOk i)]
               in if vgcLaunchOk i
                  then (s1\<lparr>lastRestartTime := vgcNow i\<rparr>,
                        launch
                        @ [Log Success VgcRestarted, Log Info VgcWaiting,
                           WaitForProcess processName 15000,
                           if vgcProcessAppeared i then Log Success VgcClientDetected
                           else Log Warn VgcClientNotDetected]
                        @ (if onRestart s1 then [Log Info VgcNotifying, OnRestart]
                           else [Log Warn VgcRestartNotSet]))
                  else (s1, launch @ [Log Error VgcRestartFailed])
        else
          let timeSinceLastVgcCheck = vgcNow i - lastVgcCheckTime s
          in if lastVgcCheckTime s = 0 \<or> timeSinceLastVgcCheck > 30000
             then (s\<lparr>lastVgcCheckTime := vgcNow i\<rparr>, [Log Info VgcStillDetected])
             else (s, [])
      else if vgcRestartTriggered s
           then (s\<lparr>vgcRestartTriggered := False\<rparr>, [Log Info VgcCleared])
           else (s, []))"

section \<open>The monitor loop\<close>

text \<open>
  One iteration of \<^verbatim>\<open>monitorLoop\<close> runs the four checks in order and sleeps. Its result
  keeps the calls of each check apart.
\<close>

record tick_in =
  restartIn :: restart_in
  killIn :: kill_in
  countIn :: count_in
  vgcIn :: vgc_in

record tick_out =
  restartFx :: "effect list"
  killFx :: "effect list"
  countFx :: "effect list"
  vgcFx :: "effect list"
  sleepFx :: "effect list"

definition allFx :: "tick_out \<Rightarrow> effect list" where
  "allFx out = restartFx out @ killFx out @ countFx out @ vgcFx out @ sleepFx out"

definition tick :: "monitor \<Rightarrow> tick_in \<Rightarrow> monitor \<times> tick_out" where
  "tick s t =
     (let (s1, e1) = checkAndRestartClient s (restartIn t);
          (s2, procs, e2) = checkAndKillGame s1 (killIn t);
          (s3, e3) = checkLeagueProcessCount s2 (countIn t);
          (s4, e4) = checkVgcService s3 (vgcIn t)
      in (s4, \<lparr> restartFx = e1, killFx = e2, countFx = e3, vgcFx = e4,
                sleepFx = [Sleep (unat (monitorInterval s4))] \<rparr>))"

text \<open>
  \<^verbatim>\<open>while (isMonitoring_.load()) { ... }\<close>: the list holds what the operating system hands
  back in each iteration; the loop may run for ever, the list is the part of the run looked at.
\<close>

fun monitorLoop :: "monitor \<Rightarrow> tick_in list \<Rightarrow> monitor \<times> tick_out list" where
  "monitorLoop s [] = (s, [])"
| "monitorLoop s (t # ts) =
     (if isMonitoring s
      then let (s1, out) = tick s t;
               (s2, outs) = monitorLoop s1 ts
           in (s2, out # outs)
      else (s, []))"

text \<open>\<^verbatim>\<open>start\<close> up to the creation of the thread that runs the loop.\<close>

definition start :: "monitor \<Rightarrow> restart_in \<Rightarrow> monitor \<times> effect list" where
  "start s i =
     (if isMonitoring s then (s, [Log Warn MonitorAlreadyRunning])
      else
        let (s1, e) = checkAndRestartClient (s\<lparr>isMonitoring := True\<rparr>) i
        in (s1, [Log Info StartingMonitor] @ e @ [Log Success MonitorStarted]))"

section \<open>The relay client\<close>

text \<open>
  \<^verbatim>\<open>WebSocketClientImpl\<close> (websocket_client_impl.cpp). The transport and the JSON library
  are not part of the repository: a frame is modelled by the JSON value it carries, what
  \<^verbatim>\<open>json::parse\<close> makes of an inbound frame and what the transport answers to a call are
  inputs.
\<close>

datatype Role = CONTROLLER | FOLLOWER

text \<open>
  The values of \<^verbatim>\<open>nlohmann::json\<close> the client builds or inspects; an object is the list of
  its members, each key once.
\<close>

datatype json =
    JNull
  | JBool bool
  | JNumber int
  | JString string
  | JArray "json list"
  | JObject "(string \<times> json) list"

text \<open>\<^verbatim>\<open>message[key] = value\<close> on the members of an object.\<close>

definition jset :: "string \<Rightarrow> json \<Rightarrow> (string \<times> json) list \<Rightarrow> (string \<times> json) list" where
  "jset key v members = AList.update key v members"

text \<open>\<^verbatim>\<open>message.update(data)\<close>: every member of \<open>data\<close> is stored into \<open>message\<close>.\<close>

definition jupdate :: "(string \<times> json) list \<Rightarrow> (string \<times> json) list \<Rightarrow> (string \<times> json) list" where
  "jupdate data members = fold (\<lambda>(key, v). jset key v) data members"

text \<open>
  \<^verbatim>\<open>msg.value("type", "")\<close>: the member as a string, the default when it is missing;
  \<open>None\<close> when the call throws (the value is not an object, or the member is not a string).
\<close>

definition value_type :: "json \<Rightarrow> string option" where
  "value_type msg =
     (case msg of
        JObject members \<Rightarrow>
          (case map_of members ''type'' of
             None \<Rightarrow> Some ''''
           | Some (JString t) \<Rightarrow> Some t
           | Some other \<Rightarrow> None)
      | other \<Rightarrow> None)"

text \<open>\<^verbatim>\<open>msg.contains(key)\<close>.\<close>

definition jcontains :: "json \<Rightarrow> string \<Rightarrow> bool" where
  "jcontains msg key =
     (case msg of JObject members \<Rightarrow> map_of members key \<noteq> None | other \<Rightarrow> False)"

text \<open>\<^verbatim>\<open>msg[key].get<std::string>()\<close> on an object that contains \<open>key\<close>; \<open>None\<close> when it throws.\<close>

definition get_string :: "json \<Rightarrow> string \<Rightarrow> string option" where
  "get_string msg key =
     (case msg of
        JObject members \<Rightarrow>
          (case map_of members key of Some (JString t) \<Rightarrow> Some t | other \<Rightarrow> None)
      | other \<Rightarrow> None)"

text \<open>The log statements of the client.\<close>

datatype relay_line =
    ConnectedToRelay | DisconnectedFromRelay | ConnectionFailed | ConnectionCreationFailed
  | ConnectionException | AttemptingReconnect | SendFailed | SendException
  | SessionCreated string | JoinedSession | FailedToParse

primrec relay_text :: "relay_line \<Rightarrow> string" where
  "relay_text ConnectedToRelay = ''Connected to relay server''"
| "relay_text DisconnectedFromRelay = ''Disconnected from relay server''"
| "relay_text ConnectionFailed = ''Connection failed''"
| "relay_text ConnectionCreationFailed = ''Connection creation failed: ''"
| "relay_text ConnectionException = ''Connection exception: ''"
| "relay_text AttemptingReconnect = ''Attempting to reconnect...''"
| "relay_text SendFailed = ''Send failed: ''"
| "relay_text SendException = ''Send exception: ''"
| "relay_text (SessionCreated token) = ''Session created: '' @ token"
| "relay_text JoinedSession = ''Joined session successfully''"
| "relay_text FailedToParse = ''Failed to parse message: ''"

declare relay_text.simps [simp del]

text \<open>
  The calls the client makes: log statements, a text frame handed to the transport
  (\<open>Transmit\<close>), \<^verbatim>\<open>get_connection\<close> and \<^verbatim>\<open>connect\<close> on the endpoint, the start and the
  join of the worker thread, the close of the connection, the sleep before a reconnect, and
  the invocations of the four registered handlers.
\<close>

datatype relay_effect =
    RLog level relay_line
  | Transmit json
  | GetConnection string
  | Connect
  | StartWorker
  | Close
  | JoinWorker
  | Backoff nat
  | StatusCallback
  | ImmediateStartCallback
  | ClientRestartedCallback
  | GameRunningRestartRequestCallback

text \<open>
  The fields of \<^verbatim>\<open>WebSocketClientImpl\<close> without their trailing underscore.
  \<open>connectionHandle\<close> tells whether the handle refers to a live connection (it has not
  expired), \<open>workerJoinable\<close> is \<^verbatim>\<open>workerThread_.joinable()\<close>, a handler field tells whether
  a handler is registered.
\<close>

record client =
  serverUrl :: string
  sessionToken :: string
  role :: Role
  connectionHandle :: bool
  connected :: bool
  shouldReconnect :: bool
  workerJoinable :: bool
  statusCallback :: bool
  immediateStartCallback :: bool
  clientRestartedCallback :: bool
  gameRunningRestartRequestCallback :: bool

definition WebSocketClientImpl :: "string \<Rightarrow> Role \<Rightarrow> client" where
  "WebSocketClientImpl url r =
     \<lparr> serverUrl = url, sessionToken = [], role = r, connectionHandle = False,
       connected = False, shouldReconnect = True, workerJoinable = False,
       statusCallback = False, immediateStartCallback = False,
       clientRestartedCallback = False, gameRunningRestartRequestCallback = False \<rparr>"

definition roleName :: "Role \<Rightarrow> string" where
  "roleName r = (if r = CONTROLLER then ''controller'' else ''follower'')"

text \<open>
  What the transport answers to \<^verbatim>\<open>send\<close>: the frame is accepted, an error code is set, or
  an exception is thrown (by \<^verbatim>\<open>dump\<close> or by the transport).
\<close>

datatype send_result = SendOk | SendEc | SendThrows

definition send :: "client \<Rightarrow> json \<Rightarrow> send_result \<Rightarrow> client \<times> relay_effect list" where
  "send s data r =
     (if \<not> connected s \<or> \<not> connectionHandle s then (s, [])
      else case r of
             SendOk \<Rightarrow> (s, [Transmit data])
           | SendEc \<Rightarrow> (s, [RLog Error SendFailed])
           | SendThrows \<Rightarrow> (s, [RLog Error SendException]))"

text \<open>
  The value \<^verbatim>\<open>sendMessage\<close> builds. Every caller in the repository passes no payload or an
  object, so the payload is the list of the object's members (empty for no payload);
  \<open>timestamp\<close> is the reading of the system clock in milliseconds.
\<close>

definition envelope :: "client \<Rightarrow> string \<Rightarrow> (string \<times> json) list \<Rightarrow> int \<Rightarrow> json" where
  "envelope s type data timestamp =
     (let m1 = jset ''type'' (JString type) [];
          m2 = jset ''timestamp'' (JNumber timestamp) m1;
          m3 = (if data \<noteq> [] then jupdate data m2 else m2);
          m4 = (if sessionToken s \<noteq> [] then jset ''sessionToken'' (JString (sessionToken s)) m3
                else m3);
          m5 = jset ''role'' (JString (roleName (role s))) m4
      in JObject m5)"

record send_in =
  wallClock :: int
  sendResult :: send_result

definition sendMessage ::
  "client \<Rightarrow> string \<Rightarrow> (string \<times> json) list \<Rightarrow> send_in \<Rightarrow> client \<times> relay_effect list" where
  "sendMessage s type data i = send s (envelope s type data (wallClock i)) (sendResult i)"

definition createSession :: "client \<Rightarrow> send_in \<Rightarrow> client \<times> relay_effect list" where
  "createSession s i = sendMessage s ''CREATE_SESSION'' [] i"

definition joinSession :: "client \<Rightarrow> string \<Rightarrow> send_in \<Rightarrow> client \<times> relay_effect list" where
  "joinSession s token i =
     (if token \<noteq> []
      then sendMessage (s\<lparr>sessionToken := token\<rparr>) ''JOIN'' [(''sessionToken'', JString token)] i
      else sendMessage s ''JOIN'' [] i)"

text \<open>The sending functions of \<^verbatim>\<open>WebSocketClient\<close> (websocket_client.cpp).\<close>

definition broadcastImmediateStart :: "client \<Rightarrow> send_in \<Rightarrow> client \<times> relay_effect list" where
  "broadcastImmediateStart s i = sendMessage s ''IMMEDIATE_START'' [] i"

definition broadcastRestart :: "client \<Rightarrow> send_in \<Rightarrow> client \<times> relay_effect list" where
  "broadcastRestart s i = sendMessage s ''CLIENT_RESTARTED'' [] i"

definition requestRestartFromController :: "client \<Rightarrow> send_in \<Rightarrow> client \<times> relay_effect list" where
  "requestRestartFromController s i = sendMessage s ''GAME_RUNNING_RESTART_REQUEST'' [] i"

definition statusData :: "bool \<Rightarrow> u32 \<Rightarrow> (string \<times> json) list" where
  "statusData running processCount =
     [(''clientRunning'', JBool running), (''processCount'', JNumber (uint processCount))]"

definition sendStatus :: "client \<Rightarrow> bool \<Rightarrow> u32 \<Rightarrow> send_in \<Rightarrow> client \<times> relay_effect list" where
  "sendStatus s running processCount i =
     sendMessage s ''STATUS_UPDATE'' (statusData running processCount) i"

subsection \<open>Connecting and reconnecting\<close>

text \<open>
  What the endpoint answers to \<^verbatim>\<open>connect\<close>: the connection is created and queued,
  \<^verbatim>\<open>get_connection\<close> sets an error code, or an exception is thrown.
\<close>

datatype connect_result = ConnOk | ConnEc | ConnThrows

definition connect ::
  "client \<Rightarrow> string \<Rightarrow> connect_result \<Rightarrow> bool \<times> client \<times> relay_effect list" where
  "connect s token r =
     (let s1 = (if token \<noteq> [] then s\<lparr>sessionToken := token\<rparr> else s)
      in case r of
           ConnEc \<Rightarrow>
             (False, s1, [GetConnection (serverUrl s1), RLog Error ConnectionCreationFailed])
         | ConnThrows \<Rightarrow> (False, s1, [RLog Error ConnectionException])
         | ConnOk \<Rightarrow>
             if \<not> workerJoinable s1
             then (True, s1\<lparr>shouldReconnect := True, workerJoinable := True\<rparr>,
                   [GetConnection (serverUrl s1), Connect, StartWorker])
             else (True, s1, [GetConnection (serverUrl s1), Connect]))"

definition disconnect :: "client \<Rightarrow> client \<times> relay_effect list" where
  "disconnect s =
     (let s1 = s\<lparr>shouldReconnect := False\<rparr>;
          (s2, e2) = (if connectionHandle s1
                      then (s1\<lparr>connectionHandle := False\<rparr>, [Close]) else (s1, []));
          (s3, e3) = (if workerJoinable s2
                      then (s2\<lparr>workerJoinable := False\<rparr>, [JoinWorker]) else (s2, []))
      in (s3\<lparr>connected := False\<rparr>, e2 @ e3))"

definition scheduleReconnect :: "client \<Rightarrow> connect_result \<Rightarrow> client \<times> relay_effect list" where
  "scheduleReconnect s r =
     (if \<not> shouldReconnect s then (s, [])
      else if shouldReconnect s \<and> \<not> connected s
           then let (ok, s1, e) = connect s (sessionToken s) r
                in (s1, [Backoff 5000, RLog Info AttemptingReconnect] @ e)
           else (s, [Backoff 5000]))"

text \<open>The handlers the constructor registers on the endpoint.\<close>

definition openHandler :: "client \<Rightarrow> send_in \<Rightarrow> client \<times> relay_effect list" where
  "openHandler s i =
     (let s1 = s\<lparr>connected := True, shouldReconnect := False, connectionHandle := True\<rparr>;
          (s2, e) = (if sessionToken s1 \<noteq> [] then joinSession s1 (sessionToken s1) i
                     else joinSession s1 [] i)
      in (s2, [RLog Success ConnectedToRelay] @ e))"

definition closeHandler :: "client \<Rightarrow> connect_result \<Rightarrow> client \<times> relay_effect list" where
  "closeHandler s r =
     (let (s1, e) = scheduleReconnect (s\<lparr>connected := False, connectionHandle := False\<rparr>) r
      in (s1, [RLog Warn DisconnectedFromRelay] @ e))"

definition failHandler :: "client \<Rightarrow> connect_result \<Rightarrow> client \<times> relay_effect list" where
  "failHandler s r =
     (let (s1, e) = scheduleReconnect (s\<lparr>connected := False, connectionHandle := False\<rparr>) r
      in (s1, [RLog Error ConnectionFailed] @ e))"

subsection \<open>Inbound dispatch\<close>

text \<open>
  What \<^verbatim>\<open>handleMessage\<close> reads from outside besides the frame: the pair the status handler
  returns, and what a reply needs.
\<close>

record handle_in =
  statusResult :: "bool \<times> u32"
  reply :: send_in

text \<open>
  \<open>frame\<close> is what \<^verbatim>\<open>json::parse\<close> makes of the payload, \<open>None\<close> when it throws. Every
  exception of the JSON library ends in the \<^verbatim>\<open>catch\<close> clause.
\<close>

definition handleMessage ::
  "client \<Rightarrow> handle_in \<Rightarrow> json option \<Rightarrow> client \<times> relay_effect list" where
  "handleMessage s i frame =
     (case frame of
        None \<Rightarrow> (s, [RLog Error FailedToParse])
      | Some msg \<Rightarrow>
          (case value_type msg of
             None \<Rightarrow> (s, [RLog Error FailedToParse])
           | Some type \<Rightarrow>
               if type = ''STATUS_REQUEST'' then
                 if statusCallback s
                 then let (running, processCount) = statusResult i;
                          (s1, e) = sendMessage s ''STATUS_UPDATE''
                                      (statusData running processCount) (reply i)
                      in (s1, [StatusCallback] @ e)
                 else (s, [])
               else if type = ''IMMEDIATE_START'' then
                 if immediateStartCallback s then (s, [ImmediateStartCallback]) else (s, [])
               else if type = ''CLIENT_RESTARTED'' then
                 if clientRestartedCallback s then (s, [ClientRestartedCallback]) else (s, [])
               else if type = ''GAME_RUNNING_RESTART_REQUEST'' then
                 if gameRunningRestartRequestCallback s
                 then (s, [GameRunningRestartRequestCallback]) else (s, [])
               else if type = ''SESSION_CREATED'' then
                 if jcontains msg ''sessionToken''
                 then case get_string msg ''sessionToken'' of
                        None \<Rightarrow> (s, [RLog Error FailedToParse])
                      | Some token \<Rightarrow>
                          (s\<lparr>sessionToken := token\<rparr>, [RLog Success (SessionCreated token)])
                 else (s, [])
               else if type = ''SESSION_JOINED'' then
                 if role s = FOLLOWER
                 then let (s1, e) = sendMessage s ''STATUS_REQUEST'' [] (reply i)
                      in (s1, [RLog Success JoinedSession] @ e)
                 else (s, [RLog Success JoinedSession])
               else (s, [])))"

section \<open>Notions used in the statements\<close>

subsection \<open>Monitor\<close>

text \<open>The calls the kill functions of \<^verbatim>\<open>ProcessUtils\<close> can make.\<close>

definition killOrLog :: "effect \<Rightarrow> bool" where
  "killOrLog e = (case e of Log l m \<Rightarrow> True | KillProcess p \<Rightarrow> True | _ \<Rightarrow> False)"

text \<open>A relaunch of the client is a call of the launcher that succeeded.\<close>

definition launched :: "effect list \<Rightarrow> bool" where
  "launched fx = (LaunchLeagueClient True \<in> set fx)"

text \<open>
  The relaunches of one iteration and of a whole run (\<^verbatim>\<open>start\<close>, then the loop), each
  named by the clock reading its check took for the cooldown test, in program order.
\<close>

definition tickRelaunches :: "tick_in \<Rightarrow> tick_out \<Rightarrow> int list" where
  "tickRelaunches t out =
     (if launched (restartFx out) then [restartNow (restartIn t)] else [])
     @ (if launched (vgcFx out) then [vgcNow (vgcIn t)] else [])"

fun loopRelaunches :: "tick_in list \<Rightarrow> tick_out list \<Rightarrow> int list" where
  "loopRelaunches (t # ts) (out # outs) = tickRelaunches t out @ loopRelaunches ts outs"
| "loopRelaunches ts outs = []"

definition relaunches :: "monitor \<Rightarrow> restart_in \<Rightarrow> tick_in list \<Rightarrow> int list" where
  "relaunches s i0 ts =
     (let (s1, e0) = start s i0;
          (s2, outs) = monitorLoop s1 ts
      in (if launched e0 then [restartNow i0] else []) @ loopRelaunches ts outs)"

text \<open>
  The steady clock does not run backwards between the two readings of the liveness check.
\<close>

definition steady :: "restart_in \<Rightarrow> bool" where
  "steady i = (restartNow i \<le> nowAfterLaunch i)"

text \<open>\<open>later\<close> is at least a cooldown after \<open>earlier\<close>.\<close>

definition cooled :: "int \<Rightarrow> int \<Rightarrow> bool" where
  "cooled earlier later = (earlier + restartCooldown \<le> later)"

text \<open>The calls of a check other than its log statements, in program order.\<close>

definition actions :: "effect list \<Rightarrow> effect list" where
  "actions fx = filter (\<lambda>e. case e of Log l x \<Rightarrow> False | other \<Rightarrow> True) fx"

text \<open>
  The restart sequence of the watchdog check in the words of the specification's section on
  the supervisor: stop the watchdog; if the primary process is running, kill it and the helper
  process that runs beside it, then pause for two seconds; within 30 seconds of the relaunch on
  record stop here; otherwise relaunch and, when the launch succeeded, wait up to 15 seconds
  for the process and invoke the restart handler if one is registered. \<open>recorded\<close> is the time
  of the relaunch on record when the check runs, \<open>handler\<close> tells whether a restart handler is
  registered, \<open>i\<close> is what the check observes.
\<close>

definition restartSequence :: "int \<Rightarrow> bool \<Rightarrow> vgc_in \<Rightarrow> effect list" where
  "restartSequence recorded handler i =
     [KillVgcProcess]
     @ (if clientRunning i
        then [KillProcessByName ''LeagueClient'']
             @ (if riotClientServicesRunning i then [KillProcessByName ''RiotClientServices'']
                else [])
             @ [Sleep 2000]
        else [])
     @ (if vgcNow i - recorded < 30000 then []
        else [LaunchLeagueClient (vgcLaunchOk i)]
             @ (if vgcLaunchOk i
                then [WaitForProcess ''LeagueClient'' 15000]
                     @ (if handler then [OnRestart] else [])
                else []))"

text \<open>
  What a first detection of the sentinel amounts to, for an iteration \<open>t\<close> that starts in state
  \<open>s\<close> and ends in state \<open>s'\<close> with the calls \<open>out\<close>: the watchdog check warns once, its calls
  are the restart sequence (taken against the relaunch time the liveness check of the same
  iteration leaves on record), the flag is armed afterwards, and the time of the relaunch is
  recorded exactly when a launch was made and succeeded.
\<close>

definition firstDetection :: "monitor \<Rightarrow> tick_in \<Rightarrow> monitor \<Rightarrow> tick_out \<Rightarrow> bool" where
  "firstDetection s t s' out =
     (let recorded = lastRestartTime (fst (checkAndRestartClient s (restartIn t)));
          i = vgcIn t
      in count_list (vgcFx out) (Log Warn VgcDetected) = 1
         \<and> actions (vgcFx out) = restartSequence recorded (onRestart s) i
         \<and> vgcRestartTriggered s'
         \<and> lastRestartTime s' =
             (if 30000 \<le> vgcNow i - recorded \<and> vgcLaunchOk i then vgcNow i else recorded))"

text \<open>A process that one of the game-process aliases matches.\<close>

definition isGameProcess :: "process \<Rightarrow> bool" where
  "isGameProcess p = (filter (\<lambda>n. matches n p) getLeagueGameProcessNames \<noteq> [])"

subsection \<open>Relay client\<close>

text \<open>
  The messages the client sends, one constructor per sending function of the repository,
  with the function each stands for; \<open>wireType\<close> and \<open>wirePayload\<close> are the table of message
  types and payloads in the specification's section on external interfaces (the optional
  token of \<open>JOIN\<close> being the envelope's \<open>sessionToken\<close>), \<open>knownToken\<close> is the token the client
  knows once the message is built.
\<close>

datatype outbound =
    CreateSession | Join string | StatusRequest | StatusUpdate bool u32
  | ImmediateStart | ClientRestartedMessage | GameRunningRestartRequest

definition issue :: "client \<Rightarrow> outbound \<Rightarrow> send_in \<Rightarrow> client \<times> relay_effect list" where
  "issue s m i =
     (case m of
        CreateSession \<Rightarrow> createSession s i
      | Join token \<Rightarrow> joinSession s token i
      | StatusRequest \<Rightarrow> sendMessage s ''STATUS_REQUEST'' [] i
      | StatusUpdate running processCount \<Rightarrow> sendStatus s running processCount i
      | ImmediateStart \<Rightarrow> broadcastImmediateStart s i
      | ClientRestartedMessage \<Rightarrow> broadcastRestart s i
      | GameRunningRestartRequest \<Rightarrow> requestRestartFromController s i)"

definition wireType :: "outbound \<Rightarrow> string" where
  "wireType m =
     (case m of
        CreateSession \<Rightarrow> ''CREATE_SESSION''
      | Join token \<Rightarrow> ''JOIN''
      | StatusRequest \<Rightarrow> ''STATUS_REQUEST''
      | StatusUpdate running processCount \<Rightarrow> ''STATUS_UPDATE''
      | ImmediateStart \<Rightarrow> ''IMMEDIATE_START''
      | ClientRestartedMessage \<Rightarrow> ''CLIENT_RESTARTED''
      | GameRunningRestartRequest \<Rightarrow> ''GAME_RUNNING_RESTART_REQUEST'')"

definition wirePayload :: "outbound \<Rightarrow> (string \<times> json) list" where
  "wirePayload m =
     (case m of
        StatusUpdate running processCount \<Rightarrow>
          [(''clientRunning'', JBool running), (''processCount'', JNumber (uint processCount))]
      | other \<Rightarrow> [])"

definition knownToken :: "client \<Rightarrow> outbound \<Rightarrow> string" where
  "knownToken s m = (case m of Join token \<Rightarrow> if token \<noteq> [] then token else sessionToken s
                      | other \<Rightarrow> sessionToken s)"

text \<open>
  Modelled from the spec: the message envelope of the specification's data model (a type, a
  timestamp in milliseconds, an optional session token, a role and the fields of the payload)
  and the decoding of the object a frame carries into such an envelope. The repository
  decodes no whole envelope: its dispatcher reads the type of a frame and the token of
  \<^verbatim>\<open>SESSION_CREATED\<close>, the receiver of what it sends is the relay, and the text of a frame is
  written and parsed by the JSON library it depends on. The two role strings are those
  \<^verbatim>\<open>sendMessage\<close> writes; the payload is what the object holds besides the four members of
  the envelope.
\<close>

record specEnvelope =
  envType :: string
  envTimestamp :: int
  envSessionToken :: "string option"
  envRole :: Role
  envPayload :: "(string \<times> json) list"

text \<open>Modelled from the spec: a member that holds a string, a member that holds a number.\<close>

definition specString :: "json option \<Rightarrow> string option" where
  "specString v = (case v of Some (JString t) \<Rightarrow> Some t | other \<Rightarrow> None)"

definition specNumber :: "json option \<Rightarrow> int option" where
  "specNumber v = (case v of Some (JNumber n) \<Rightarrow> Some n | other \<Rightarrow> None)"

text \<open>Modelled from the spec: the role a role string stands for.\<close>

definition specRole :: "string \<Rightarrow> Role option" where
  "specRole r = (if r = ''controller'' then Some CONTROLLER
                 else if r = ''follower'' then Some FOLLOWER else None)"

text \<open>Modelled from the spec: the type-specific fields of an object.\<close>

definition specPayload :: "(string \<times> json) list \<Rightarrow> (string \<times> json) list" where
  "specPayload members =
     filter (\<lambda>(key, v). key \<notin> set [''type'', ''timestamp'', ''sessionToken'', ''role'']) members"

text \<open>
  Modelled from the spec: the envelope an object decodes to; \<open>None\<close> when the type, the
  timestamp or the role is missing or of the wrong kind, or the token is not a string.
\<close>

definition specDecode :: "json \<Rightarrow> specEnvelope option" where
  "specDecode frame =
     (case frame of
        JObject members \<Rightarrow>
          (case specString (map_of members ''type'') of
             None \<Rightarrow> None
           | Some t \<Rightarrow>
          (case specNumber (map_of members ''timestamp'') of
             None \<Rightarrow> None
           | Some ts \<Rightarrow>
          (case Option.bind (specString (map_of members ''role'')) specRole of
             None \<Rightarrow> None
           | Some r \<Rightarrow>
          (case map_of members ''sessionToken'' of
             None \<Rightarrow>
               Some \<lparr> envType = t, envTimestamp = ts, envSessionToken = None, envRole = r,
                      envPayload = specPayload members \<rparr>
           | Some v \<Rightarrow>
               (case specString (Some v) of
                  None \<Rightarrow> None
                | Some token \<Rightarrow>
                    Some \<lparr> envType = t, envTimestamp = ts, envSessionToken = Some token,
                           envRole = r, envPayload = specPayload members \<rparr>)))))
      | other \<Rightarrow> None)"

subsection \<open>Example runs\<close>

text \<open>
  A monitor wired as \<^verbatim>\<open>controller/main.cpp\<close> wires it (both handlers registered, five
  second interval), before and after \<^verbatim>\<open>start\<close>.
\<close>

definition ready :: monitor where
  "ready = setRestartCallback (setImmediateStartCallback (ClientMonitor 5000))"

definition wired :: monitor where
  "wired = ready\<lparr>isMonitoring := True\<rparr>"

text \<open>
  Observations at time \<open>t\<close>: the client present, the client missing (with a launch that
  succeeds and a clock reading \<open>t'\<close> after it), no game, no sentinel, the sentinel.
\<close>

definition clientUp :: "int \<Rightarrow> restart_in" where
  "clientUp t = \<lparr> processPids = [4242], isRunning = True, restartNow = t, launchOk = True,
                  nowAfterLaunch = t, processAppeared = True \<rparr>"

definition clientDown :: "int \<Rightarrow> int \<Rightarrow> restart_in" where
  "clientDown t t' = \<lparr> processPids = [], isRunning = False, restartNow = t, launchOk = True,
                       nowAfterLaunch = t', processAppeared = True \<rparr>"

definition noGame :: kill_in where
  "noGame = \<lparr> processes = [], killOutcome = (\<lambda>p. Terminated) \<rparr>"

definition noSentinel :: "int \<Rightarrow> vgc_in" where
  "noSentinel t = \<lparr> exitCode185 = False, clientRunning = True,
                    riotClientServicesRunning = True, vgcNow = t, vgcLaunchOk = True,
                    vgcProcessAppeared = True \<rparr>"

definition observing :: "u32 \<Rightarrow> int \<Rightarrow> tick_in" where
  "observing c t = \<lparr> restartIn = clientUp t, killIn = noGame,
                     countIn = \<lparr> observedCount = c, countNow = t \<rparr>, vgcIn = noSentinel t \<rparr>"

definition sentinel :: "int \<Rightarrow> tick_in" where
  "sentinel t = (observing 0 t)\<lparr> vgcIn := (noSentinel t)\<lparr> exitCode185 := True \<rparr> \<rparr>"

definition missing :: "int \<Rightarrow> int \<Rightarrow> tick_in" where
  "missing t t' = (observing 0 t)\<lparr> restartIn := clientDown t t' \<rparr>"

text \<open>The run of the specification's example: the counts 3, 8, 9, 8, 5, 10.\<close>

definition exampleCounts :: "tick_in list" where
  "exampleCounts = [observing 3 100000, observing 8 105000, observing 9 110000,
                    observing 8 115000, observing 5 120000, observing 10 125000]"

text \<open>
  After a relaunch by \<^verbatim>\<open>start\<close> at 100000: the sentinel at 108000, the client missing at
  113000 and at 140000.
\<close>

definition exampleRestarts :: "tick_in list" where
  "exampleRestarts = [sentinel 108000, missing 113000 115500, missing 140000 142500]"

text \<open>An iteration that sees the sentinel and finds the client missing.\<close>

definition sentinelMissing :: "int \<Rightarrow> int \<Rightarrow> tick_in" where
  "sentinelMissing t t' = (sentinel t)\<lparr> restartIn := clientDown t t' \<rparr>"

text \<open>A monitor whose last relaunch was recorded at 190000.\<close>

definition recentlyRestarted :: monitor where
  "recentlyRestarted = wired\<lparr>lastRestartTime := 190000\<rparr>"

text \<open>An iteration that finds the game running beside the client.\<close>

definition gameTick :: tick_in where
  "gameTick = (observing 0 100000)
     \<lparr> killIn := \<lparr> processes = [\<lparr> th32ProcessID = 77, szExeFile = ''League of Legends.exe'' \<rparr>,
                               \<lparr> th32ProcessID = 4242, szExeFile = ''LeagueClient.exe'' \<rparr>],
                  killOutcome = (\<lambda>p. Terminated) \<rparr> \<rparr>"

text \<open>A follower as constructed, and the same follower with an open connection.\<close>

definition follower0 :: client where
  "follower0 = WebSocketClientImpl ''ws://localhost:8080'' FOLLOWER"

definition online :: client where
  "online = follower0\<lparr> connected := True, connectionHandle := True, workerJoinable := True,
                       shouldReconnect := False \<rparr>"

definition exampleSend :: send_in where
  "exampleSend = \<lparr> wallClock = 1700000000000, sendResult = SendOk \<rparr>"

definition exampleHandle :: handle_in where
  "exampleHandle = \<lparr> statusResult = (True, 8), reply = exampleSend \<rparr>"

definition immediateStartFrame :: json where
  "immediateStartFrame = JObject [(''type'', JString ''IMMEDIATE_START'')]"

section \<open>Properties of the monitor\<close>

subsection \<open>What the kill check can call, and the liveness check with a client present\<close>

lemma killProcess_fx:
  "killProcess oc pid procs = (ok, procs1, e) \<Longrightarrow> list_all killOrLog e"
  by (auto simp: killProcess_def killOrLog_def split: kill_outcome.splits)

lemma killPids_fx:
  "killPids oc pids procs n = (m, procs1, e) \<Longrightarrow> list_all killOrLog e"
proof (induction pids arbitrary: procs n m procs1 e)
  case Nil
  then show ?case by simp
next
  case (Cons pid pids)
  then show ?case
    by (auto split: prod.splits dest: killProcess_fx)
qed

lemma killProcessByName_fx:
  "killProcessByName oc name procs = (m, procs1, e) \<Longrightarrow> list_all killOrLog e"
  by (auto simp: killProcessByName_def killOrLog_def split: prod.splits if_splits dest: killPids_fx)

lemma killNames_fx:
  "killNames oc names procs n = (m, procs1, e) \<Longrightarrow> list_all killOrLog e"
proof (induction names arbitrary: procs n m procs1 e)
  case Nil
  then show ?case by simp
next
  case (Cons name names)
  then show ?case
    by (auto split: prod.splits dest: killProcessByName_fx)
qed

lemma checkAndKillGame_fx:
  "checkAndKillGame s i = (s1, procs1, e) \<Longrightarrow> list_all killOrLog e"
  by (auto simp: checkAndKillGame_def killProcessByMultipleNames_def killOrLog_def Let_def
           split: prod.splits if_splits dest: killNames_fx)

lemma checkAndKillGame_state: "fst (checkAndKillGame s i) = s"
  by (simp add: checkAndKillGame_def Let_def split: prod.splits)

text \<open>
  Claim C9. When the count of primary-process instances, as the check computes it, is at
  least 1, the liveness check returns at once: the monitor's state is the one it started
  with and no call is made, so nothing is launched and nothing is killed.
\<close>

theorem liveness_check_idle_when_client_present:
  "1 \<le> (of_nat (length (processPids i)) :: u32) \<Longrightarrow> checkAndRestartClient s i = (s, [])"
  by (simp add: checkAndRestartClient_def)

theorem liveness_check_idle_when_client_present_witness:
  "checkAndRestartClient wired (clientUp 100000) = (wired, [])"
  using liveness_check_idle_when_client_present [of "clientUp 100000" wired]
  by (simp add: clientUp_def)


subsection \<open>The immediate-start trigger\<close>

lemma killOrLog_count:
  "list_all killOrLog e \<Longrightarrow> count_list e OnImmediateStart = 0"
  by (induction e) (auto simp: killOrLog_def)

lemma restart_count_start:
  "count_list (snd (checkAndRestartClient s i)) OnImmediateStart = 0"
  by (simp add: checkAndRestartClient_def Let_def)

lemma restart_frame_start:
  "immediateStartTriggered (fst (checkAndRestartClient s i)) = immediateStartTriggered s"
  "onImmediateStart (fst (checkAndRestartClient s i)) = onImmediateStart s"
  "isMonitoring (fst (checkAndRestartClient s i)) = isMonitoring s"
  by (simp_all add: checkAndRestartClient_def Let_def)

lemma vgc_count_start:
  "count_list (snd (checkVgcService s i)) OnImmediateStart = 0"
  by (simp add: checkVgcService_def Let_def)

lemma vgc_frame_start:
  "immediateStartTriggered (fst (checkVgcService s i)) = immediateStartTriggered s"
  "onImmediateStart (fst (checkVgcService s i)) = onImmediateStart s"
  "isMonitoring (fst (checkVgcService s i)) = isMonitoring s"
  by (simp_all add: checkVgcService_def Let_def)

lemma count_fires:
  "count_list (snd (checkLeagueProcessCount s i)) OnImmediateStart =
     (if onImmediateStart s \<and> 8 \<le> observedCount i \<and> \<not> immediateStartTriggered s then 1 else 0)"
  by (auto simp: checkLeagueProcessCount_def Let_def split: prod.splits if_splits)

lemma count_flag:
  "onImmediateStart s \<Longrightarrow>
   immediateStartTriggered (fst (checkLeagueProcessCount s i)) = (8 \<le> observedCount i)"
  by (auto simp: checkLeagueProcessCount_def Let_def split: prod.splits if_splits)

lemma count_frame:
  "onImmediateStart (fst (checkLeagueProcessCount s i)) = onImmediateStart s"
  "isMonitoring (fst (checkLeagueProcessCount s i)) = isMonitoring s"
  by (auto simp: checkLeagueProcessCount_def Let_def split: prod.splits if_splits)


lemma tick_fires:
  "count_list (allFx (snd (tick s t))) OnImmediateStart =
     (if onImmediateStart s \<and> 8 \<le> observedCount (countIn t) \<and> \<not> immediateStartTriggered s
      then 1 else 0)"
proof -
  obtain s1 e1 where r: "checkAndRestartClient s (restartIn t) = (s1, e1)"
    by (cases "checkAndRestartClient s (restartIn t)")
  obtain s2 procs e2 where k: "checkAndKillGame s1 (killIn t) = (s2, procs, e2)"
    by (cases "checkAndKillGame s1 (killIn t)")
  obtain s3 e3 where c: "checkLeagueProcessCount s2 (countIn t) = (s3, e3)"
    by (cases "checkLeagueProcessCount s2 (countIn t)")
  obtain s4 e4 where v: "checkVgcService s3 (vgcIn t) = (s4, e4)"
    by (cases "checkVgcService s3 (vgcIn t)")
  have s2: "s2 = s1" using checkAndKillGame_state [of s1 "killIn t"] k by simp
  have f1: "immediateStartTriggered s1 = immediateStartTriggered s"
    and h1: "onImmediateStart s1 = onImmediateStart s"
    using restart_frame_start [of s "restartIn t"] r by simp_all
  have c1: "count_list e1 OnImmediateStart = 0"
    using restart_count_start [of s "restartIn t"] r by simp
  have c2: "count_list e2 OnImmediateStart = 0"
    using checkAndKillGame_fx [OF k] by (rule killOrLog_count)
  have c3: "count_list e3 OnImmediateStart =
     (if onImmediateStart s \<and> 8 \<le> observedCount (countIn t) \<and> \<not> immediateStartTriggered s
      then 1 else 0)"
    using count_fires [of s2 "countIn t"] c s2 f1 h1 by simp
  have c4: "count_list e4 OnImmediateStart = 0"
    using vgc_count_start [of s3 "vgcIn t"] v by simp
  show ?thesis
    using c1 c2 c3 c4 by (simp add: tick_def allFx_def r k c v)
qed

lemma tick_flag:
  assumes "onImmediateStart s"
  shows "immediateStartTriggered (fst (tick s t)) = (8 \<le> observedCount (countIn t))"
proof -
  obtain s1 e1 where r: "checkAndRestartClient s (restartIn t) = (s1, e1)"
    by (cases "checkAndRestartClient s (restartIn t)")
  obtain s2 procs e2 where k: "checkAndKillGame s1 (killIn t) = (s2, procs, e2)"
    by (cases "checkAndKillGame s1 (killIn t)")
  obtain s3 e3 where c: "checkLeagueProcessCount s2 (countIn t) = (s3, e3)"
    by (cases "checkLeagueProcessCount s2 (countIn t)")
  obtain s4 e4 where v: "checkVgcService s3 (vgcIn t) = (s4, e4)"
    by (cases "checkVgcService s3 (vgcIn t)")
  have s2: "s2 = s1" using checkAndKillGame_state [of s1 "killIn t"] k by simp
  have h1: "onImmediateStart s1"
    using restart_frame_start(2) [of s "restartIn t"] r assms by simp
  have "immediateStartTriggered s3 = (8 \<le> observedCount (countIn t))"
    using count_flag [of s2 "countIn t"] c s2 h1 by simp
  moreover have "immediateStartTriggered s4 = immediateStartTriggered s3"
    using vgc_frame_start(1) [of s3 "vgcIn t"] v by simp
  ultimately show ?thesis by (simp add: tick_def r k c v)
qed

lemma tick_frame:
  "onImmediateStart (fst (tick s t)) = onImmediateStart s"
  "isMonitoring (fst (tick s t)) = isMonitoring s"
proof -
  obtain s1 e1 where r: "checkAndRestartClient s (restartIn t) = (s1, e1)"
    by (cases "checkAndRestartClient s (restartIn t)")
  obtain s2 procs e2 where k: "checkAndKillGame s1 (killIn t) = (s2, procs, e2)"
    by (cases "checkAndKillGame s1 (killIn t)")
  obtain s3 e3 where c: "checkLeagueProcessCount s2 (countIn t) = (s3, e3)"
    by (cases "checkLeagueProcessCount s2 (countIn t)")
  obtain s4 e4 where v: "checkVgcService s3 (vgcIn t) = (s4, e4)"
    by (cases "checkVgcService s3 (vgcIn t)")
  have s2: "s2 = s1" using checkAndKillGame_state [of s1 "killIn t"] k by simp
  have a: "onImmediateStart s4 = onImmediateStart s"
    using restart_frame_start(2) [of s "restartIn t"] count_frame(1) [of s2 "countIn t"]
      vgc_frame_start(2) [of s3 "vgcIn t"] r c v s2 by simp
  have b: "isMonitoring s4 = isMonitoring s"
    using restart_frame_start(3) [of s "restartIn t"] count_frame(2) [of s2 "countIn t"]
      vgc_frame_start(3) [of s3 "vgcIn t"] r c v s2 by simp
  show "onImmediateStart (fst (tick s t)) = onImmediateStart s"
    using a by (simp add: tick_def r k c v)
  show "isMonitoring (fst (tick s t)) = isMonitoring s"
    using b by (simp add: tick_def r k c v)
qed

text \<open>
  Without a registered handler nothing is invoked and the flag is never armed: the check
  warns in every iteration that observes 8 or more.
\<close>

lemma count_unregistered:
  assumes "\<not> onImmediateStart s" and "\<not> immediateStartTriggered s"
  shows "OnImmediateStart \<notin> set (snd (checkLeagueProcessCount s i))"
    and "\<not> immediateStartTriggered (fst (checkLeagueProcessCount s i))"
    and "8 \<le> observedCount i \<Longrightarrow>
         Log Warn ImmediateStartNotSet \<in> set (snd (checkLeagueProcessCount s i))"
  using assms
  by (auto simp: checkLeagueProcessCount_def Let_def split: prod.splits if_splits)

text \<open>
  Claim C1. In a run of the monitor loop with the immediate-start handler registered, the
  handler is invoked exactly once in an iteration whose observed count is at least 8 while
  the previous observation was below 8 (for the first iteration: while the flag was not
  armed), and not at all in any other iteration.
\<close>

theorem immediate_start_once_per_upward_crossing:
  assumes "isMonitoring s" and "onImmediateStart s" and "k < length ts"
  shows "count_list (allFx (snd (monitorLoop s ts) ! k)) OnImmediateStart =
     (if 8 \<le> observedCount (countIn (ts ! k))
         \<and> (if k = 0 then \<not> immediateStartTriggered s
             else observedCount (countIn (ts ! (k - 1))) < 8)
      then 1 else 0)"
  using assms
proof (induction ts arbitrary: s k)
  case Nil
  then show ?case by simp
next
  case (Cons t ts)
  obtain s1 out where t: "tick s t = (s1, out)" by (cases "tick s t")
  obtain s2 outs where m: "monitorLoop s1 ts = (s2, outs)" by (cases "monitorLoop s1 ts")
  have mon: "isMonitoring s1" and han: "onImmediateStart s1"
    using tick_frame [of s t] t Cons.prems by simp_all
  have flag: "immediateStartTriggered s1 = (8 \<le> observedCount (countIn t))"
    using tick_flag [of s t] t Cons.prems by simp
  show ?case
  proof (cases k)
    case 0
    then show ?thesis
      using tick_fires [of s t] t m Cons.prems by simp
  next
    case (Suc j)
    then have j: "j < length ts" using Cons.prems by simp
    have "count_list (allFx (outs ! j)) OnImmediateStart =
       (if 8 \<le> observedCount (countIn (ts ! j))
           \<and> (if j = 0 then \<not> immediateStartTriggered s1
               else observedCount (countIn (ts ! (j - 1))) < 8)
        then 1 else 0)"
      using Cons.IH [OF mon han j] m by simp
    then show ?thesis
      using Suc t m Cons.prems flag by (cases j) (auto simp: not_le)
  qed
qed

theorem immediate_start_once_per_upward_crossing_witness:
  "map (\<lambda>k. count_list (allFx (snd (monitorLoop wired exampleCounts) ! k)) OnImmediateStart)
       [0, 1, 2, 3, 4, 5]
   = [0, 1, 0, 0, 0, 1]"
  using immediate_start_once_per_upward_crossing [of wired 0 exampleCounts]
    immediate_start_once_per_upward_crossing [of wired 1 exampleCounts]
    immediate_start_once_per_upward_crossing [of wired 2 exampleCounts]
    immediate_start_once_per_upward_crossing [of wired 3 exampleCounts]
    immediate_start_once_per_upward_crossing [of wired 4 exampleCounts]
    immediate_start_once_per_upward_crossing [of wired 5 exampleCounts]
  by (simp add: wired_def ready_def exampleCounts_def observing_def ClientMonitor_def
        setImmediateStartCallback_def setRestartCallback_def)

subsection \<open>The restart cooldown\<close>

lemma restart_relaunch:
  assumes "checkAndRestartClient s i = (s1, e)" and "steady i"
  shows "lastRestartTime s \<le> lastRestartTime s1"
    and "launched e \<Longrightarrow> lastRestartTime s + restartCooldown \<le> restartNow i
                        \<and> restartNow i \<le> lastRestartTime s1"
  using assms
  by (auto simp: checkAndRestartClient_def Let_def launched_def steady_def restartCooldown_def
           split: if_splits)

lemma restart_blocked:
  "restartNow i - lastRestartTime s < restartCooldown \<Longrightarrow>
   LaunchLeagueClient b \<notin> set (snd (checkAndRestartClient s i))"
  by (simp add: checkAndRestartClient_def Let_def)

lemma vgc_relaunch:
  assumes "checkVgcService s i = (s1, e)"
  shows "lastRestartTime s \<le> lastRestartTime s1"
    and "launched e \<Longrightarrow> lastRestartTime s + restartCooldown \<le> vgcNow i
                        \<and> vgcNow i \<le> lastRestartTime s1"
  using assms
  by (auto simp: checkVgcService_def Let_def launched_def restartCooldown_def
           split: if_splits)

lemma vgc_blocked:
  "vgcNow i - lastRestartTime s < restartCooldown \<Longrightarrow>
   LaunchLeagueClient b \<notin> set (snd (checkVgcService s i))"
  by (simp add: checkVgcService_def Let_def)

lemma count_lastRestart:
  "lastRestartTime (fst (checkLeagueProcessCount s i)) = lastRestartTime s"
  by (auto simp: checkLeagueProcessCount_def Let_def split: prod.splits if_splits)

lemma tick_relaunch:
  assumes "tick s t = (s1, out)" and "steady (restartIn t)"
  shows "lastRestartTime s \<le> lastRestartTime s1"
    and "sorted_wrt cooled (tickRelaunches t out)"
    and "\<forall>d \<in> set (tickRelaunches t out).
           lastRestartTime s + restartCooldown \<le> d \<and> d \<le> lastRestartTime s1"
proof -
  obtain a e1 where r: "checkAndRestartClient s (restartIn t) = (a, e1)"
    by (cases "checkAndRestartClient s (restartIn t)")
  obtain b procs e2 where k: "checkAndKillGame a (killIn t) = (b, procs, e2)"
    by (cases "checkAndKillGame a (killIn t)")
  obtain c e3 where c: "checkLeagueProcessCount b (countIn t) = (c, e3)"
    by (cases "checkLeagueProcessCount b (countIn t)")
  obtain d e4 where v: "checkVgcService c (vgcIn t) = (d, e4)"
    by (cases "checkVgcService c (vgcIn t)")
  have b: "b = a" using checkAndKillGame_state [of a "killIn t"] k by simp
  have cl: "lastRestartTime c = lastRestartTime a"
    using count_lastRestart [of b "countIn t"] c b by simp
  have s1: "s1 = d" and out: "restartFx out = e1" "vgcFx out = e4"
    using assms(1) by (auto simp: tick_def r k c v)
  note R = restart_relaunch [OF r assms(2)]
  note V = vgc_relaunch [OF v]
  show "lastRestartTime s \<le> lastRestartTime s1"
    using R(1) V(1) cl s1 by simp
  show "sorted_wrt cooled (tickRelaunches t out)"
    using R(2) V(2) cl by (auto simp: tickRelaunches_def out cooled_def)
  show "\<forall>d \<in> set (tickRelaunches t out).
           lastRestartTime s + restartCooldown \<le> d \<and> d \<le> lastRestartTime s1"
    using R V cl s1 by (auto simp: tickRelaunches_def out)
qed

lemma loop_relaunches:
  assumes "\<forall>t \<in> set ts. steady (restartIn t)" and "monitorLoop s ts = (s', outs)"
  shows "sorted_wrt cooled (loopRelaunches ts outs)
         \<and> (\<forall>d \<in> set (loopRelaunches ts outs). lastRestartTime s + restartCooldown \<le> d)"
  using assms
proof (induction ts arbitrary: s s' outs)
  case Nil
  then show ?case by simp
next
  case (Cons t ts)
  show ?case
  proof (cases "isMonitoring s")
    case False
    then show ?thesis using Cons.prems by simp
  next
    case True
    obtain s1 out where t: "tick s t = (s1, out)" by (cases "tick s t")
    obtain s2 rest where m: "monitorLoop s1 ts = (s2, rest)" by (cases "monitorLoop s1 ts")
    have outs: "outs = out # rest" using Cons.prems(2) True t m by simp
    have st: "steady (restartIn t)" and sts: "\<forall>t \<in> set ts. steady (restartIn t)"
      using Cons.prems(1) by simp_all
    note T = tick_relaunch [OF t st]
    note IH = Cons.IH [OF sts m]
    have cross: "cooled x y"
      if "x \<in> set (tickRelaunches t out)" and "y \<in> set (loopRelaunches ts rest)" for x y
    proof -
      have "x \<le> lastRestartTime s1" using T(3) that(1) by blast
      moreover have "lastRestartTime s1 + restartCooldown \<le> y" using IH that(2) by blast
      ultimately show ?thesis by (simp add: cooled_def)
    qed
    have "sorted_wrt cooled (tickRelaunches t out @ loopRelaunches ts rest)"
      using T(2) IH cross by (simp add: sorted_wrt_append)
    moreover have "lastRestartTime s + restartCooldown \<le> y"
      if "y \<in> set (tickRelaunches t out @ loopRelaunches ts rest)" for y
    proof (cases "y \<in> set (tickRelaunches t out)")
      case True
      then show ?thesis using T(3) by blast
    next
      case False
      then have "lastRestartTime s1 + restartCooldown \<le> y" using IH that by auto
      then show ?thesis using T(1) by simp
    qed
    ultimately show ?thesis by (auto simp: outs)
  qed
qed

text \<open>
  Claim C2. In every run of the monitor (\<^verbatim>\<open>start\<close>, then any number of iterations of the
  loop) every relaunch of the client, whichever check performed it, comes at least a cooldown
  after every earlier one, times being the clock readings the checks took for the cooldown
  test; and a check that finds the time since the recorded relaunch below the cooldown does
  not call the launcher at all, be it the liveness check or the watchdog check.
\<close>

theorem relaunches_spaced_by_cooldown:
  assumes "steady i0" and "\<forall>t \<in> set ts. steady (restartIn t)"
  shows "sorted_wrt cooled (relaunches s i0 ts)
         \<and> (restartNow i - lastRestartTime m < restartCooldown \<longrightarrow>
              LaunchLeagueClient b \<notin> set (snd (checkAndRestartClient m i)))
         \<and> (vgcNow v - lastRestartTime m < restartCooldown \<longrightarrow>
              LaunchLeagueClient b \<notin> set (snd (checkVgcService m v)))"
proof -
  obtain s1 e0 where st: "start s i0 = (s1, e0)" by (cases "start s i0")
  obtain s2 outs where m: "monitorLoop s1 ts = (s2, outs)" by (cases "monitorLoop s1 ts")
  note L = loop_relaunches [OF assms(2) m]
  have "launched e0 \<Longrightarrow> restartNow i0 \<le> lastRestartTime s1"
  proof -
    assume l: "launched e0"
    then have nm: "\<not> isMonitoring s" using st by (auto simp: start_def launched_def)
    obtain a e where r: "checkAndRestartClient (s\<lparr>isMonitoring := True\<rparr>) i0 = (a, e)"
      by (cases "checkAndRestartClient (s\<lparr>isMonitoring := True\<rparr>) i0")
    have "s1 = a" and "launched e"
      using st nm r l by (auto simp: start_def launched_def)
    then show ?thesis using restart_relaunch(2) [OF r assms(1)] by simp
  qed
  then have "cooled (restartNow i0) y" if "launched e0" and "y \<in> set (loopRelaunches ts outs)" for y
    using L that by (fastforce simp: cooled_def)
  then have "sorted_wrt cooled ((if launched e0 then [restartNow i0] else []) @ loopRelaunches ts outs)"
    using L by (simp add: sorted_wrt_append)
  then have "sorted_wrt cooled (relaunches s i0 ts)"
    by (simp add: relaunches_def st m)
  then show ?thesis
    using restart_blocked [of i m b] vgc_blocked [of v m b] by simp
qed

theorem relaunches_spaced_by_cooldown_witness:
  "steady (clientDown 100000 102500)
   \<and> list_all (\<lambda>t. steady (restartIn t)) exampleRestarts
   \<and> relaunches ready (clientDown 100000 102500) exampleRestarts = [100000, 140000]
   \<and> sorted_wrt cooled (relaunches ready (clientDown 100000 102500) exampleRestarts)
   \<and> LaunchLeagueClient True
        \<notin> set (snd (checkVgcService (fst (start ready (clientDown 100000 102500)))
                       (vgcIn (sentinel 108000))))"
proof -
  have a: "steady (clientDown 100000 102500)"
    by (simp add: steady_def clientDown_def)
  have b: "\<forall>t \<in> set exampleRestarts. steady (restartIn t)"
    by (simp add: exampleRestarts_def steady_def sentinel_def missing_def observing_def
          clientUp_def clientDown_def)
  have s: "start ready (clientDown 100000 102500)
           = (wired\<lparr>lastRestartTime := 102500\<rparr>,
              [Log Info StartingMonitor, Log Warn ClientNotRunning, Log Info TerminatingVgc,
               KillVgcProcess, Sleep 2000, LaunchLeagueClient True, Log Success ClientRestarted,
               Log Info WaitingForClient, WaitForProcess ''LeagueClient'' 15000,
               Log Success ClientDetected, Log Success MonitorStarted])"
    by (simp add: start_def checkAndRestartClient_def wired_def ready_def ClientMonitor_def
          setImmediateStartCallback_def setRestartCallback_def clientDown_def
          restartCooldown_def getLeagueClientProcessName_def Let_def)
  have c: "vgcNow (vgcIn (sentinel 108000))
             - lastRestartTime (fst (start ready (clientDown 100000 102500))) < restartCooldown"
    unfolding s
    by (simp add: sentinel_def noSentinel_def observing_def restartCooldown_def wired_def
          ready_def ClientMonitor_def setImmediateStartCallback_def setRestartCallback_def)
  have e: "relaunches ready (clientDown 100000 102500) exampleRestarts = [100000, 140000]"
    unfolding relaunches_def s
    by (simp add: launched_def exampleRestarts_def tickRelaunches_def
          wired_def ready_def ClientMonitor_def setImmediateStartCallback_def
          setRestartCallback_def sentinel_def missing_def observing_def clientUp_def
          clientDown_def noGame_def noSentinel_def tick_def checkAndRestartClient_def
          checkAndKillGame_def checkLeagueProcessCount_def checkVgcService_def
          getLeagueGameProcessNames_def isProcessRunning_def restartCooldown_def Let_def)
  show ?thesis
    using relaunches_spaced_by_cooldown
            [OF a b, where s = ready and v = "vgcIn (sentinel 108000)"
               and m = "fst (start ready (clientDown 100000 102500))" and b = True
               and i = "clientDown 100000 102500"]
      a b c e
    by (simp add: list_all_iff)
qed

subsection \<open>The watchdog check over a run\<close>

lemma monitorLoop_idle: "\<not> isMonitoring s \<Longrightarrow> monitorLoop s ts = (s, [])"
  by (cases ts) simp_all

lemma monitorLoop_append:
  "monitorLoop s (xs @ ys) =
     (let (s1, o1) = monitorLoop s xs; (s2, o2) = monitorLoop s1 ys in (s2, o1 @ o2))"
proof (induction xs arbitrary: s)
  case Nil
  then show ?case by (simp split: prod.splits)
next
  case (Cons x xs)
  show ?case
  proof (cases "isMonitoring s")
    case True
    then show ?thesis using Cons.IH by (simp split: prod.splits)
  next
    case False
    then show ?thesis by (simp add: monitorLoop_idle)
  qed
qed

lemma monitorLoop_length:
  "isMonitoring s \<Longrightarrow> length (snd (monitorLoop s ts)) = length ts"
proof (induction ts arbitrary: s)
  case Nil
  then show ?case by simp
next
  case (Cons t ts)
  obtain s1 out where t: "tick s t = (s1, out)" by (cases "tick s t")
  obtain s2 outs where m: "monitorLoop s1 ts = (s2, outs)" by (cases "monitorLoop s1 ts")
  have "isMonitoring s1" using tick_frame(2) [of s t] t Cons.prems by simp
  then show ?case using Cons.IH [of s1] Cons.prems t m by simp
qed

lemma monitorLoop_monitoring:
  "isMonitoring (fst (monitorLoop s ts)) = isMonitoring s"
proof (induction ts arbitrary: s)
  case Nil
  then show ?case by simp
next
  case (Cons t ts)
  obtain s1 out where t: "tick s t = (s1, out)" by (cases "tick s t")
  obtain s2 outs where m: "monitorLoop s1 ts = (s2, outs)" by (cases "monitorLoop s1 ts")
  have "isMonitoring s1 = isMonitoring s" using tick_frame(2) [of s t] t by simp
  then show ?case using Cons.IH [of s1] t m by simp
qed

lemma restart_frame_vgc:
  "vgcRestartTriggered (fst (checkAndRestartClient s i)) = vgcRestartTriggered s"
  "lastVgcCheckTime (fst (checkAndRestartClient s i)) = lastVgcCheckTime s"
  "onRestart (fst (checkAndRestartClient s i)) = onRestart s"
  by (simp_all add: checkAndRestartClient_def Let_def)

lemma count_frame_vgc:
  "vgcRestartTriggered (fst (checkLeagueProcessCount s i)) = vgcRestartTriggered s"
  "lastVgcCheckTime (fst (checkLeagueProcessCount s i)) = lastVgcCheckTime s"
  "onRestart (fst (checkLeagueProcessCount s i)) = onRestart s"
  by (auto simp: checkLeagueProcessCount_def Let_def split: prod.splits if_splits)

text \<open>
  The watchdog check of an iteration runs on a state whose watchdog fields are those the
  iteration started with.
\<close>

lemma tick_vgc:
  assumes "tick s t = (s1, out)"
  shows "\<exists>m. checkVgcService m (vgcIn t) = (s1, vgcFx out)
            \<and> vgcRestartTriggered m = vgcRestartTriggered s
            \<and> lastVgcCheckTime m = lastVgcCheckTime s
            \<and> onRestart m = onRestart s
            \<and> lastRestartTime m = lastRestartTime (fst (checkAndRestartClient s (restartIn t)))"
proof -
  obtain a e1 where r: "checkAndRestartClient s (restartIn t) = (a, e1)"
    by (cases "checkAndRestartClient s (restartIn t)")
  obtain b procs e2 where k: "checkAndKillGame a (killIn t) = (b, procs, e2)"
    by (cases "checkAndKillGame a (killIn t)")
  obtain c e3 where c: "checkLeagueProcessCount b (countIn t) = (c, e3)"
    by (cases "checkLeagueProcessCount b (countIn t)")
  obtain d e4 where v: "checkVgcService c (vgcIn t) = (d, e4)"
    by (cases "checkVgcService c (vgcIn t)")
  have b: "b = a" using checkAndKillGame_state [of a "killIn t"] k by simp
  have "s1 = d" and "vgcFx out = e4"
    using assms by (auto simp: tick_def r k c v)
  moreover have "vgcRestartTriggered c = vgcRestartTriggered s"
    "lastVgcCheckTime c = lastVgcCheckTime s" "onRestart c = onRestart s"
    using restart_frame_vgc [of s "restartIn t"] count_frame_vgc [of b "countIn t"] r c b
    by simp_all
  moreover have "lastRestartTime c = lastRestartTime a"
    using count_lastRestart [of b "countIn t"] c b by simp
  ultimately show ?thesis using v r by auto
qed

lemma vgc_first:
  assumes "exitCode185 i" and "\<not> vgcRestartTriggered s" and "checkVgcService s i = (s1, e)"
  shows "vgcRestartTriggered s1"
    and "count_list e (Log Warn VgcDetected) = 1"
    and "actions e = restartSequence (lastRestartTime s) (onRestart s) i"
    and "lastRestartTime s1 =
           (if 30000 \<le> vgcNow i - lastRestartTime s \<and> vgcLaunchOk i then vgcNow i
            else lastRestartTime s)"
  using assms
  by (auto simp: checkVgcService_def Let_def actions_def restartSequence_def restartCooldown_def
        getLeagueClientProcessName_def getRiotClientServicesProcessName_def split: if_splits)

lemma vgc_persist:
  assumes "exitCode185 i" and "vgcRestartTriggered s"
  shows "checkVgcService s i =
     (if lastVgcCheckTime s = 0 \<or> vgcNow i - lastVgcCheckTime s > 30000
      then (s\<lparr>lastVgcCheckTime := vgcNow i\<rparr>, [Log Info VgcStillDetected]) else (s, []))"
  using assms by (simp add: checkVgcService_def Let_def)

lemma vgc_clear:
  assumes "\<not> exitCode185 i"
  shows "checkVgcService s i =
     (if vgcRestartTriggered s then (s\<lparr>vgcRestartTriggered := False\<rparr>, [Log Info VgcCleared])
      else (s, []))"
  using assms by (simp add: checkVgcService_def)

lemma tick_first:
  assumes "exitCode185 (vgcIn t)" and "\<not> vgcRestartTriggered s" and "tick s t = (s1, out)"
  shows "vgcRestartTriggered s1" and "firstDetection s t s1 out"
proof -
  obtain m where m: "checkVgcService m (vgcIn t) = (s1, vgcFx out)"
    "vgcRestartTriggered m = vgcRestartTriggered s" "onRestart m = onRestart s"
    "lastRestartTime m = lastRestartTime (fst (checkAndRestartClient s (restartIn t)))"
    using tick_vgc [OF assms(3)] by blast
  have un: "\<not> vgcRestartTriggered m" using m(2) assms(2) by simp
  note F = vgc_first [OF assms(1) un m(1)]
  show "vgcRestartTriggered s1" using F(1) .
  show "firstDetection s t s1 out"
    unfolding firstDetection_def Let_def using F m(3,4) by simp
qed

lemma tick_persist:
  assumes "exitCode185 (vgcIn t)" and "vgcRestartTriggered s" and "tick s t = (s1, out)"
  shows "vgcRestartTriggered s1"
    and "vgcFx out = [] \<and> lastVgcCheckTime s1 = lastVgcCheckTime s
         \<or> vgcFx out = [Log Info VgcStillDetected] \<and> lastVgcCheckTime s1 = vgcNow (vgcIn t)
            \<and> (lastVgcCheckTime s = 0 \<or> 30000 < vgcNow (vgcIn t) - lastVgcCheckTime s)"
proof -
  obtain m where m: "checkVgcService m (vgcIn t) = (s1, vgcFx out)"
    "vgcRestartTriggered m = vgcRestartTriggered s" "lastVgcCheckTime m = lastVgcCheckTime s"
    using tick_vgc [OF assms(3)] by blast
  have arm: "vgcRestartTriggered m" using m(2) assms(2) by simp
  note P = vgc_persist [OF assms(1) arm]
  show "vgcRestartTriggered s1"
    using P m(1) arm by (auto split: if_splits)
  show "vgcFx out = [] \<and> lastVgcCheckTime s1 = lastVgcCheckTime s
         \<or> vgcFx out = [Log Info VgcStillDetected] \<and> lastVgcCheckTime s1 = vgcNow (vgcIn t)
            \<and> (lastVgcCheckTime s = 0 \<or> 30000 < vgcNow (vgcIn t) - lastVgcCheckTime s)"
    using P m(1) m(3) by (auto split: if_splits)
qed

lemma tick_clear:
  assumes "\<not> exitCode185 (vgcIn t)" and "tick s t = (s1, out)"
  shows "\<not> vgcRestartTriggered s1"
    and "vgcFx out = (if vgcRestartTriggered s then [Log Info VgcCleared] else [])"
proof -
  obtain m where m: "checkVgcService m (vgcIn t) = (s1, vgcFx out)"
    "vgcRestartTriggered m = vgcRestartTriggered s"
    using tick_vgc [OF assms(2)] by blast
  note C = vgc_clear [OF assms(1), of m]
  show "\<not> vgcRestartTriggered s1"
    using C m(1) by (auto split: if_splits)
  show "vgcFx out = (if vgcRestartTriggered s then [Log Info VgcCleared] else [])"
    using C m by (auto split: if_splits)
qed

lemma loop_persist:
  assumes "isMonitoring s" and "vgcRestartTriggered s"
    and "\<forall>t \<in> set ts. exitCode185 (vgcIn t)" and "monitorLoop s ts = (s', outs)"
  shows "vgcRestartTriggered s' \<and> (\<forall>out \<in> set outs. set (vgcFx out) \<subseteq> {Log Info VgcStillDetected})"
  using assms
proof (induction ts arbitrary: s s' outs)
  case Nil
  then show ?case by simp
next
  case (Cons t ts)
  obtain s1 out where t: "tick s t = (s1, out)" by (cases "tick s t")
  obtain s2 rest where m: "monitorLoop s1 ts = (s2, rest)" by (cases "monitorLoop s1 ts")
  have eq: "s' = s2" "outs = out # rest" using Cons.prems t m by simp_all
  have mon: "isMonitoring s1" using tick_frame(2) [of s t] t Cons.prems(1) by simp
  have ex: "exitCode185 (vgcIn t)" using Cons.prems(3) by simp
  note P = tick_persist [OF ex Cons.prems(2) t]
  have "vgcRestartTriggered s2 \<and> (\<forall>out \<in> set rest. set (vgcFx out) \<subseteq> {Log Info VgcStillDetected})"
    using Cons.IH [OF mon P(1) _ m] Cons.prems(3) by simp
  moreover have "set (vgcFx out) \<subseteq> {Log Info VgcStillDetected}" using P(2) by auto
  ultimately show ?case by (simp add: eq)
qed

lemma loop_quiet:
  assumes "isMonitoring s" and "\<not> vgcRestartTriggered s"
    and "\<forall>t \<in> set ts. \<not> exitCode185 (vgcIn t)" and "monitorLoop s ts = (s', outs)"
  shows "\<not> vgcRestartTriggered s' \<and> (\<forall>out \<in> set outs. vgcFx out = [])"
  using assms
proof (induction ts arbitrary: s s' outs)
  case Nil
  then show ?case by simp
next
  case (Cons t ts)
  obtain s1 out where t: "tick s t = (s1, out)" by (cases "tick s t")
  obtain s2 rest where m: "monitorLoop s1 ts = (s2, rest)" by (cases "monitorLoop s1 ts")
  have eq: "s' = s2" "outs = out # rest" using Cons.prems t m by simp_all
  have mon: "isMonitoring s1" using tick_frame(2) [of s t] t Cons.prems(1) by simp
  have ex: "\<not> exitCode185 (vgcIn t)" using Cons.prems(3) by simp
  note C = tick_clear [OF ex t]
  have "\<not> vgcRestartTriggered s2 \<and> (\<forall>out \<in> set rest. vgcFx out = [])"
    using Cons.IH [OF mon C(1) _ m] Cons.prems(3) by simp
  moreover have "vgcFx out = []" using C(2) Cons.prems(2) by simp
  ultimately show ?case by (simp add: eq)
qed

lemma loop_throttle_first:
  assumes "isMonitoring s" and "vgcRestartTriggered s"
    and "\<forall>t \<in> set ts. exitCode185 (vgcIn t) \<and> vgcNow (vgcIn t) \<noteq> 0"
    and "monitorLoop s ts = (s', outs)" and "k < length ts" and "vgcFx (outs ! k) \<noteq> []"
  shows "lastVgcCheckTime s = 0 \<or> 30000 < vgcNow (vgcIn (ts ! k)) - lastVgcCheckTime s"
  using assms
proof (induction ts arbitrary: s s' outs k)
  case Nil
  then show ?case by simp
next
  case (Cons t ts)
  obtain s1 out where t: "tick s t = (s1, out)" by (cases "tick s t")
  obtain s2 rest where m: "monitorLoop s1 ts = (s2, rest)" by (cases "monitorLoop s1 ts")
  have eq: "outs = out # rest" using Cons.prems t m by simp
  have mon: "isMonitoring s1" using tick_frame(2) [of s t] t Cons.prems(1) by simp
  have ex: "exitCode185 (vgcIn t)" and nz: "vgcNow (vgcIn t) \<noteq> 0"
    using Cons.prems(3) by simp_all
  note P = tick_persist [OF ex Cons.prems(2) t]
  show ?case
  proof (cases k)
    case 0
    then show ?thesis using P(2) Cons.prems(6) eq by auto
  next
    case (Suc j)
    have j: "j < length ts" and lj: "vgcFx (rest ! j) \<noteq> []"
      using Suc Cons.prems(5,6) eq by simp_all
    have "lastVgcCheckTime s1 = 0 \<or> 30000 < vgcNow (vgcIn (ts ! j)) - lastVgcCheckTime s1"
      using Cons.IH [OF mon P(1) _ m j lj] Cons.prems(3) by simp
    then show ?thesis using P(2) nz Suc by auto
  qed
qed

lemma loop_throttle:
  assumes "isMonitoring s" and "vgcRestartTriggered s"
    and "\<forall>t \<in> set ts. exitCode185 (vgcIn t) \<and> vgcNow (vgcIn t) \<noteq> 0"
    and "monitorLoop s ts = (s', outs)" and "j < k" and "k < length ts"
    and "vgcFx (outs ! j) \<noteq> []" and "vgcFx (outs ! k) \<noteq> []"
  shows "30000 < vgcNow (vgcIn (ts ! k)) - vgcNow (vgcIn (ts ! j))"
  using assms
proof (induction ts arbitrary: s s' outs j k)
  case Nil
  then show ?case by simp
next
  case (Cons t ts)
  obtain s1 out where t: "tick s t = (s1, out)" by (cases "tick s t")
  obtain s2 rest where m: "monitorLoop s1 ts = (s2, rest)" by (cases "monitorLoop s1 ts")
  have eq: "outs = out # rest" using Cons.prems t m by simp
  have mon: "isMonitoring s1" using tick_frame(2) [of s t] t Cons.prems(1) by simp
  have ex: "exitCode185 (vgcIn t)" and nz: "vgcNow (vgcIn t) \<noteq> 0"
    and rest: "\<forall>t \<in> set ts. exitCode185 (vgcIn t) \<and> vgcNow (vgcIn t) \<noteq> 0"
    using Cons.prems(3) by simp_all
  note P = tick_persist [OF ex Cons.prems(2) t]
  obtain k' where k: "k = Suc k'" using Cons.prems(5) by (cases k) simp_all
  have k': "k' < length ts" and lk: "vgcFx (rest ! k') \<noteq> []"
    using k Cons.prems(6,8) eq by simp_all
  show ?case
  proof (cases j)
    case 0
    then have "vgcFx out \<noteq> []" using Cons.prems(7) eq by simp
    then have last: "lastVgcCheckTime s1 = vgcNow (vgcIn t)" using P(2) by auto
    have "lastVgcCheckTime s1 = 0 \<or> 30000 < vgcNow (vgcIn (ts ! k')) - lastVgcCheckTime s1"
      using loop_throttle_first [OF mon P(1) rest m k' lk] .
    then show ?thesis using last nz 0 k by simp
  next
    case (Suc j')
    have "30000 < vgcNow (vgcIn (ts ! k')) - vgcNow (vgcIn (ts ! j'))"
      using Cons.IH [OF mon P(1) rest m _ k' _ lk, of j'] Suc k Cons.prems(5,7) eq by simp
    then show ?thesis using Suc k by simp
  qed
qed

text \<open>
  Claim C4. Take a run of the loop that starts with the flag unarmed: an iteration \<open>t1\<close> that
  sees the sentinel, iterations \<open>mid\<close> that still see it (the claim's ticks 2 to 5; their clock
  readings are not 0), an iteration \<open>t6\<close> that does not, iterations \<open>quiet\<close> that do not
  either, and an iteration \<open>t7\<close> that sees it again. Then in \<open>t1\<close> the watchdog check warns
  once and runs the restart sequence: it stops the watchdog, kills the client and its helper
  if the client is running, and, unless the relaunch on record is less than 30 seconds old,
  launches the client, waits for it and invokes the restart handler if the launch succeeded
  and a handler is registered; the time of a successful launch is put on record. In the
  iterations of \<open>mid\<close> the check does nothing but log that the sentinel is still there, two
  such lines being more than 30 seconds apart; the flag is armed after \<open>t1\<close> and after each
  iteration of \<open>mid\<close>; \<open>t6\<close> logs the reset and leaves the flag cleared; the watchdog check does
  nothing in \<open>quiet\<close>; and in \<open>t7\<close> it runs the whole restart sequence again.
\<close>

theorem watchdog_sequence_once_per_arming:
  assumes mon: "isMonitoring s" and unarmed: "\<not> vgcRestartTriggered s"
    and t1: "exitCode185 (vgcIn t1)"
    and mid: "\<forall>t \<in> set mid. exitCode185 (vgcIn t) \<and> vgcNow (vgcIn t) \<noteq> 0"
    and t6: "\<not> exitCode185 (vgcIn t6)"
    and quiet: "\<forall>t \<in> set quiet. \<not> exitCode185 (vgcIn t)"
    and t7: "exitCode185 (vgcIn t7)"
  shows "\<exists>o1 omid o6 oquiet o7.
      snd (monitorLoop s (t1 # mid @ t6 # quiet @ [t7])) = o1 # omid @ o6 # oquiet @ [o7]
    \<and> length omid = length mid \<and> length oquiet = length quiet
    \<and> firstDetection s t1 (fst (monitorLoop s [t1])) o1
    \<and> (\<forall>out \<in> set omid. set (vgcFx out) \<subseteq> {Log Info VgcStillDetected})
    \<and> (\<forall>j k. j < k \<and> k < length mid \<and> vgcFx (omid ! j) \<noteq> [] \<and> vgcFx (omid ! k) \<noteq> []
           \<longrightarrow> 30000 < vgcNow (vgcIn (mid ! k)) - vgcNow (vgcIn (mid ! j)))
    \<and> (\<forall>n \<le> length mid. vgcRestartTriggered (fst (monitorLoop s (t1 # take n mid))))
    \<and> vgcFx o6 = [Log Info VgcCleared]
    \<and> \<not> vgcRestartTriggered (fst (monitorLoop s (t1 # mid @ [t6])))
    \<and> (\<forall>out \<in> set oquiet. vgcFx out = [])
    \<and> firstDetection (fst (monitorLoop s (t1 # mid @ t6 # quiet))) t7
         (fst (monitorLoop s (t1 # mid @ t6 # quiet @ [t7]))) o7"
proof -
  obtain s1 o1 where a: "tick s t1 = (s1, o1)" by (cases "tick s t1")
  obtain s5 omid where b: "monitorLoop s1 mid = (s5, omid)" by (cases "monitorLoop s1 mid")
  obtain s6 o6 where c: "tick s5 t6 = (s6, o6)" by (cases "tick s5 t6")
  obtain sq oquiet where d: "monitorLoop s6 quiet = (sq, oquiet)"
    by (cases "monitorLoop s6 quiet")
  obtain s8 o7 where e: "tick sq t7 = (s8, o7)" by (cases "tick sq t7")
  have m1: "isMonitoring s1" using tick_frame(2) [of s t1] a mon by simp
  have m5: "isMonitoring s5" using monitorLoop_monitoring [of s1 mid] b m1 by simp
  have m6: "isMonitoring s6" using tick_frame(2) [of s5 t6] c m5 by simp
  have mq: "isMonitoring sq" using monitorLoop_monitoring [of s6 quiet] d m6 by simp
  have run: "monitorLoop s (t1 # mid @ t6 # quiet @ [t7]) = (s8, o1 # omid @ o6 # oquiet @ [o7])"
    using mon m5 mq by (simp add: a b c d e monitorLoop_append)
  have lm: "length omid = length mid" using monitorLoop_length [OF m1, of mid] b by simp
  have lq: "length oquiet = length quiet" using monitorLoop_length [OF m6, of quiet] d by simp
  have s1: "fst (monitorLoop s [t1]) = s1" using mon by (simp add: a)
  have sq: "fst (monitorLoop s (t1 # mid @ t6 # quiet)) = sq"
    using mon m5 by (simp add: a b c d monitorLoop_append)
  have s8: "fst (monitorLoop s (t1 # mid @ t6 # quiet @ [t7])) = s8" using run by simp
  note F = tick_first [OF t1 unarmed a]
  have first: "firstDetection s t1 (fst (monitorLoop s [t1])) o1" using F(2) s1 by simp
  have mid185: "\<forall>t \<in> set mid. exitCode185 (vgcIn t)" using mid by simp
  note P = loop_persist [OF m1 F(1) mid185 b]
  have thr: "30000 < vgcNow (vgcIn (mid ! k)) - vgcNow (vgcIn (mid ! j))"
    if "j < k" "k < length mid" "vgcFx (omid ! j) \<noteq> []" "vgcFx (omid ! k) \<noteq> []" for j k
    using loop_throttle [OF m1 F(1) mid b that] .
  have armed: "vgcRestartTriggered (fst (monitorLoop s (t1 # take n mid)))" for n
  proof -
    obtain x y where xy: "monitorLoop s1 (take n mid) = (x, y)"
      by (cases "monitorLoop s1 (take n mid)")
    have "\<forall>t \<in> set (take n mid). exitCode185 (vgcIn t)"
      using mid185 by (meson in_set_takeD)
    then have "vgcRestartTriggered x" using loop_persist [OF m1 F(1) _ xy] by simp
    then show ?thesis using mon a xy by simp
  qed
  note C = tick_clear [OF t6 c]
  have clr: "vgcFx o6 = [Log Info VgcCleared]" using C(2) P by simp
  have s6: "fst (monitorLoop s (t1 # mid @ [t6])) = s6"
    using mon m5 by (simp add: a b c monitorLoop_append)
  note Q = loop_quiet [OF m6 C(1) quiet d]
  have Qa: "\<not> vgcRestartTriggered sq" using Q by simp
  note R = tick_first [OF t7 Qa e]
  have again: "firstDetection (fst (monitorLoop s (t1 # mid @ t6 # quiet))) t7
                 (fst (monitorLoop s (t1 # mid @ t6 # quiet @ [t7]))) o7"
    using R(2) sq s8 by simp
  have cleared: "\<not> vgcRestartTriggered (fst (monitorLoop s (t1 # mid @ [t6])))"
    using s6 C(1) by simp
  show ?thesis
    using run lm lq first P thr armed clr cleared Q again
    by (intro exI [of _ o1] exI [of _ omid] exI [of _ o6] exI [of _ oquiet] exI [of _ o7]) simp
qed

theorem watchdog_sequence_once_per_arming_witness:
  "\<exists>o1 omid o6 oquiet o7.
      snd (monitorLoop wired
             (sentinel 200000
              # [sentinel 205000, sentinel 210000, sentinel 215000, sentinel 220000]
              @ observing 0 225000 # [observing 0 230000] @ [sentinel 300000]))
        = o1 # omid @ o6 # oquiet @ [o7]
    \<and> length omid = length [sentinel 205000, sentinel 210000, sentinel 215000, sentinel 220000]
    \<and> length oquiet = length [observing 0 230000]
    \<and> firstDetection wired (sentinel 200000) (fst (monitorLoop wired [sentinel 200000])) o1
    \<and> (\<forall>out \<in> set omid. set (vgcFx out) \<subseteq> {Log Info VgcStillDetected})
    \<and> (\<forall>j k. j < k
           \<and> k < length [sentinel 205000, sentinel 210000, sentinel 215000, sentinel 220000]
           \<and> vgcFx (omid ! j) \<noteq> [] \<and> vgcFx (omid ! k) \<noteq> []
           \<longrightarrow> 30000 < vgcNow (vgcIn ([sentinel 205000, sentinel 210000, sentinel 215000,
                                         sentinel 220000] ! k))
                         - vgcNow (vgcIn ([sentinel 205000, sentinel 210000, sentinel 215000,
                                           sentinel 220000] ! j)))
    \<and> (\<forall>n \<le> length [sentinel 205000, sentinel 210000, sentinel 215000, sentinel 220000].
          vgcRestartTriggered
            (fst (monitorLoop wired
                    (sentinel 200000
                     # take n [sentinel 205000, sentinel 210000, sentinel 215000,
                               sentinel 220000]))))
    \<and> vgcFx o6 = [Log Info VgcCleared]
    \<and> \<not> vgcRestartTriggered
          (fst (monitorLoop wired
                  (sentinel 200000
                   # [sentinel 205000, sentinel 210000, sentinel 215000, sentinel 220000]
                   @ [observing 0 225000])))
    \<and> (\<forall>out \<in> set oquiet. vgcFx out = [])
    \<and> firstDetection
         (fst (monitorLoop wired
                 (sentinel 200000
                  # [sentinel 205000, sentinel 210000, sentinel 215000, sentinel 220000]
                  @ observing 0 225000 # [observing 0 230000])))
         (sentinel 300000)
         (fst (monitorLoop wired
                 (sentinel 200000
                  # [sentinel 205000, sentinel 210000, sentinel 215000, sentinel 220000]
                  @ observing 0 225000 # [observing 0 230000] @ [sentinel 300000])))
         o7"
  by (rule watchdog_sequence_once_per_arming)
     (simp_all add: wired_def ready_def ClientMonitor_def setImmediateStartCallback_def
        setRestartCallback_def sentinel_def observing_def noSentinel_def)

subsection \<open>A watchdog restart blocked by the cooldown\<close>

lemma vgc_blocked_first:
  assumes "exitCode185 i" and "\<not> vgcRestartTriggered s"
    and "vgcNow i - lastRestartTime s < restartCooldown" and "checkVgcService s i = (s1, fx)"
  shows "vgcRestartTriggered s1"
    and "KillVgcProcess \<in> set fx"
    and "clientRunning i \<longrightarrow> KillProcessByName getLeagueClientProcessName \<in> set fx"
    and "clientRunning i \<and> riotClientServicesRunning i
           \<longrightarrow> KillProcessByName getRiotClientServicesProcessName \<in> set fx"
    and "LaunchLeagueClient b \<notin> set fx"
    and "OnRestart \<notin> set fx"
  using assms by (auto simp: checkVgcService_def Let_def)

lemma no_OnRestart_outside_vgc:
  "OnRestart \<notin> set (snd (checkAndRestartClient s i))"
  "OnRestart \<notin> set (snd (checkLeagueProcessCount s c))"
  "list_all killOrLog e \<Longrightarrow> OnRestart \<notin> set e"
  by (auto simp: checkAndRestartClient_def checkLeagueProcessCount_def Let_def killOrLog_def
        list_all_iff split: prod.splits if_splits)

lemma tick_OnRestart:
  assumes "tick s t = (s1, out)" and "OnRestart \<notin> set (vgcFx out)"
  shows "OnRestart \<notin> set (allFx out)"
proof -
  obtain a e1 where r: "checkAndRestartClient s (restartIn t) = (a, e1)"
    by (cases "checkAndRestartClient s (restartIn t)")
  obtain b procs e2 where k: "checkAndKillGame a (killIn t) = (b, procs, e2)"
    by (cases "checkAndKillGame a (killIn t)")
  obtain c e3 where c: "checkLeagueProcessCount b (countIn t) = (c, e3)"
    by (cases "checkLeagueProcessCount b (countIn t)")
  obtain d e4 where v: "checkVgcService c (vgcIn t) = (d, e4)"
    by (cases "checkVgcService c (vgcIn t)")
  have out: "out = \<lparr> restartFx = e1, killFx = e2, countFx = e3, vgcFx = e4,
                sleepFx = [Sleep (unat (monitorInterval d))] \<rparr>"
    using assms(1) by (auto simp: tick_def r k c v)
  have "OnRestart \<notin> set e1" using no_OnRestart_outside_vgc(1) [of s "restartIn t"] r by simp
  moreover have "OnRestart \<notin> set e2"
    using no_OnRestart_outside_vgc(3) [OF checkAndKillGame_fx [OF k]] .
  moreover have "OnRestart \<notin> set e3"
    using no_OnRestart_outside_vgc(2) [of b "countIn t"] c by simp
  ultimately show ?thesis using assms(2) by (simp add: out allFx_def)
qed

lemma loop_no_OnRestart:
  assumes "isMonitoring s" and "vgcRestartTriggered s"
    and "\<forall>t \<in> set ts. exitCode185 (vgcIn t)" and "monitorLoop s ts = (s', outs)"
  shows "\<forall>out \<in> set outs. OnRestart \<notin> set (allFx out)"
  using assms
proof (induction ts arbitrary: s s' outs)
  case Nil
  then show ?case by simp
next
  case (Cons t ts)
  obtain s1 out where t: "tick s t = (s1, out)" by (cases "tick s t")
  obtain s2 rest where m: "monitorLoop s1 ts = (s2, rest)" by (cases "monitorLoop s1 ts")
  have eq: "outs = out # rest" using Cons.prems t m by simp
  have mon: "isMonitoring s1" using tick_frame(2) [of s t] t Cons.prems(1) by simp
  have ex: "exitCode185 (vgcIn t)" using Cons.prems(3) by simp
  note P = tick_persist [OF ex Cons.prems(2) t]
  have "OnRestart \<notin> set (vgcFx out)" using P(2) by auto
  then have "OnRestart \<notin> set (allFx out)" by (rule tick_OnRestart [OF t])
  moreover have "\<forall>out \<in> set rest. OnRestart \<notin> set (allFx out)"
    using Cons.IH [OF mon P(1) _ m] Cons.prems(3) by simp
  ultimately show ?case by (simp add: eq)
qed

text \<open>
  Claim C10, as amended. Let the watchdog check first see the sentinel (flag unarmed) in an
  iteration \<open>t\<close> in which the time since the recorded relaunch is below the cooldown, and
  let every later iteration of \<open>ts\<close> see the sentinel too. Then in \<open>t\<close> the flag is armed,
  the watchdog is stopped, the client and the helper are killed if they run, the watchdog
  check does not call the launcher, and the restart handler is not invoked; in every later
  iteration the watchdog check does nothing but log that the sentinel is still there, the
  restart handler is not invoked by any check, and the flag stays armed. The restart the
  watchdog check skipped is never made up for by the watchdog check.
\<close>

theorem blocked_watchdog_restart_is_dropped:
  assumes mon: "isMonitoring s" and unarmed: "\<not> vgcRestartTriggered s"
    and first: "exitCode185 (vgcIn t)"
    and cool: "vgcNow (vgcIn t) - lastRestartTime (fst (checkAndRestartClient s (restartIn t)))
                 < restartCooldown"
    and later: "\<forall>u \<in> set ts. exitCode185 (vgcIn u)"
  shows "\<exists>o1 outs.
      snd (monitorLoop s (t # ts)) = o1 # outs \<and> length outs = length ts
    \<and> vgcRestartTriggered (fst (monitorLoop s [t]))
    \<and> KillVgcProcess \<in> set (vgcFx o1)
    \<and> (clientRunning (vgcIn t) \<longrightarrow> KillProcessByName getLeagueClientProcessName \<in> set (vgcFx o1))
    \<and> (clientRunning (vgcIn t) \<and> riotClientServicesRunning (vgcIn t)
          \<longrightarrow> KillProcessByName getRiotClientServicesProcessName \<in> set (vgcFx o1))
    \<and> (\<forall>b. LaunchLeagueClient b \<notin> set (vgcFx o1))
    \<and> OnRestart \<notin> set (allFx o1)
    \<and> (\<forall>out \<in> set outs. set (vgcFx out) \<subseteq> {Log Info VgcStillDetected}
                          \<and> OnRestart \<notin> set (allFx out))
    \<and> vgcRestartTriggered (fst (monitorLoop s (t # ts)))"
proof -
  obtain s1 o1 where a: "tick s t = (s1, o1)" by (cases "tick s t")
  obtain s2 outs where b: "monitorLoop s1 ts = (s2, outs)" by (cases "monitorLoop s1 ts")
  have m1: "isMonitoring s1" using tick_frame(2) [of s t] a mon by simp
  obtain m where m: "checkVgcService m (vgcIn t) = (s1, vgcFx o1)"
    "vgcRestartTriggered m = vgcRestartTriggered s"
    "lastRestartTime m = lastRestartTime (fst (checkAndRestartClient s (restartIn t)))"
    using tick_vgc [OF a] by blast
  have um: "\<not> vgcRestartTriggered m" using m(2) unarmed by simp
  have cm: "vgcNow (vgcIn t) - lastRestartTime m < restartCooldown" using m(3) cool by simp
  note F = vgc_blocked_first [OF first um cm m(1)]
  have o1: "OnRestart \<notin> set (allFx o1)" using tick_OnRestart [OF a F(6)] .
  note P = loop_persist [OF m1 F(1) later b]
  note N = loop_no_OnRestart [OF m1 F(1) later b]
  have len: "length outs = length ts" using monitorLoop_length [OF m1, of ts] b by simp
  have run: "monitorLoop s (t # ts) = (s2, o1 # outs)" using mon a b by simp
  have one: "fst (monitorLoop s [t]) = s1" using mon a by simp
  show ?thesis
    using run len one F o1 P N
    by (intro exI [of _ o1] exI [of _ outs]) simp
qed

theorem blocked_watchdog_restart_is_dropped_witness:
  "\<exists>o1 outs.
      snd (monitorLoop recentlyRestarted (sentinel 200000 # [sentinel 205000, sentinel 240000]))
        = o1 # outs
    \<and> length outs = length [sentinel 205000, sentinel 240000]
    \<and> vgcRestartTriggered (fst (monitorLoop recentlyRestarted [sentinel 200000]))
    \<and> KillVgcProcess \<in> set (vgcFx o1)
    \<and> (clientRunning (vgcIn (sentinel 200000))
          \<longrightarrow> KillProcessByName getLeagueClientProcessName \<in> set (vgcFx o1))
    \<and> (clientRunning (vgcIn (sentinel 200000))
          \<and> riotClientServicesRunning (vgcIn (sentinel 200000))
          \<longrightarrow> KillProcessByName getRiotClientServicesProcessName \<in> set (vgcFx o1))
    \<and> (\<forall>b. LaunchLeagueClient b \<notin> set (vgcFx o1))
    \<and> OnRestart \<notin> set (allFx o1)
    \<and> (\<forall>out \<in> set outs. set (vgcFx out) \<subseteq> {Log Info VgcStillDetected}
                          \<and> OnRestart \<notin> set (allFx out))
    \<and> vgcRestartTriggered
        (fst (monitorLoop recentlyRestarted (sentinel 200000 # [sentinel 205000, sentinel 240000])))"
  by (rule blocked_watchdog_restart_is_dropped)
     (simp_all add: recentlyRestarted_def wired_def ready_def ClientMonitor_def
        setImmediateStartCallback_def setRestartCallback_def sentinel_def observing_def
        noSentinel_def clientUp_def checkAndRestartClient_def restartCooldown_def)

text \<open>
  The claim as first stated has no relaunch at all in a later iteration. The liveness check
  is not bound by the watchdog's flag: here the sentinel is first seen at 200000, inside the
  cooldown of a relaunch recorded at 190000; at 235000 the sentinel is still there, the
  client is missing, the cooldown is over, and the liveness check relaunches the client.
\<close>

theorem liveness_check_relaunches_while_sentinel_persists:
  "\<not> vgcRestartTriggered recentlyRestarted
   \<and> exitCode185 (vgcIn (sentinel 200000))
   \<and> vgcNow (vgcIn (sentinel 200000))
        - lastRestartTime (fst (checkAndRestartClient recentlyRestarted (restartIn (sentinel 200000))))
       < restartCooldown
   \<and> exitCode185 (vgcIn (sentinelMissing 235000 237500))
   \<and> LaunchLeagueClient True
        \<in> set (restartFx (snd (monitorLoop recentlyRestarted
                                   [sentinel 200000, sentinelMissing 235000 237500]) ! 1))"
  by (simp add: recentlyRestarted_def wired_def ready_def ClientMonitor_def
        setImmediateStartCallback_def setRestartCallback_def sentinelMissing_def sentinel_def
        observing_def clientUp_def clientDown_def noGame_def noSentinel_def tick_def
        checkAndRestartClient_def checkAndKillGame_def checkLeagueProcessCount_def
        checkVgcService_def getLeagueGameProcessNames_def isProcessRunning_def
        restartCooldown_def Let_def)

subsection \<open>The managed-game kill check\<close>

lemma killProcess_keep:
  assumes "killProcess oc pid procs = (ok, procs1, e)"
  shows "KillProcess pid \<in> set e" and "set procs1 \<subseteq> set procs"
    and "\<forall>p \<in> set procs. p \<in> set procs1 \<or> th32ProcessID p = pid"
    and "oc pid = Terminated \<Longrightarrow> procs1 = filter (\<lambda>e. th32ProcessID e \<noteq> pid) procs"
  using assms by (auto simp: killProcess_def split: kill_outcome.splits)

lemma killPids_keep:
  assumes "killPids oc pids procs n = (m, procs1, e)"
  shows "(\<forall>pid \<in> set pids. KillProcess pid \<in> set e) \<and> set procs1 \<subseteq> set procs
       \<and> (\<forall>p \<in> set procs. p \<in> set procs1 \<or> KillProcess (th32ProcessID p) \<in> set e)
       \<and> ((\<forall>pid. oc pid = Terminated) \<longrightarrow>
            procs1 = filter (\<lambda>e. th32ProcessID e \<notin> set pids) procs)"
  using assms
proof (induction pids arbitrary: procs n m procs1 e)
  case Nil
  then show ?case by simp
next
  case (Cons pid pids)
  obtain ok pa ea where k: "killProcess oc pid procs = (ok, pa, ea)"
    by (cases "killProcess oc pid procs") auto
  obtain mb pb eb where r: "killPids oc pids pa (if ok then n + 1 else n) = (mb, pb, eb)"
    by (cases "killPids oc pids pa (if ok then n + 1 else n)") auto
  have eq: "procs1 = pb" "e = ea @ eb" using Cons.prems k r by simp_all
  note K = killProcess_keep [OF k]
  note IH = Cons.IH [OF r]
  have a: "\<forall>q \<in> set (pid # pids). KillProcess q \<in> set e" using K(1) IH eq by auto
  have b: "set procs1 \<subseteq> set procs" using K(2) IH eq by auto
  have c: "\<forall>p \<in> set procs. p \<in> set procs1 \<or> KillProcess (th32ProcessID p) \<in> set e"
  proof
    fix p assume p: "p \<in> set procs"
    show "p \<in> set procs1 \<or> KillProcess (th32ProcessID p) \<in> set e"
    proof (cases "p \<in> set pa")
      case True
      then show ?thesis using IH eq by auto
    next
      case False
      then have "th32ProcessID p = pid" using K(3) p by blast
      then show ?thesis using K(1) eq by auto
    qed
  qed
  have d: "(\<forall>q. oc q = Terminated) \<longrightarrow>
            procs1 = filter (\<lambda>e. th32ProcessID e \<notin> set (pid # pids)) procs"
  proof
    assume t: "\<forall>q. oc q = Terminated"
    then have "pa = filter (\<lambda>e. th32ProcessID e \<noteq> pid) procs" using K(4) by simp
    moreover have "pb = filter (\<lambda>e. th32ProcessID e \<notin> set pids) pa" using IH t by simp
    ultimately show "procs1 = filter (\<lambda>e. th32ProcessID e \<notin> set (pid # pids)) procs"
      using eq by (simp add: conj_commute)
  qed
  show ?case using a b c d by blast
qed

lemma killProcessByName_keep:
  assumes "killProcessByName oc name procs = (m, procs1, e)"
  shows "(\<forall>p \<in> set procs. matches name p \<longrightarrow> KillProcess (th32ProcessID p) \<in> set e)
       \<and> set procs1 \<subseteq> set procs
       \<and> (\<forall>p \<in> set procs. p \<in> set procs1 \<or> KillProcess (th32ProcessID p) \<in> set e)
       \<and> ((\<forall>pid. oc pid = Terminated) \<longrightarrow> (\<forall>p \<in> set procs1. \<not> matches name p))"
proof -
  obtain k pa ea where r: "killPids oc (getProcessPids name procs) procs 0 = (k, pa, ea)"
    by (cases "killPids oc (getProcessPids name procs) procs 0") auto
  have eq: "procs1 = pa" "set ea \<subseteq> set e"
    using assms r by (auto simp: killProcessByName_def Let_def split: if_splits)
  note K = killPids_keep [OF r]
  have a: "\<forall>p \<in> set procs. matches name p \<longrightarrow> KillProcess (th32ProcessID p) \<in> set e"
    using K eq by (auto simp: getProcessPids_def)
  have d: "(\<forall>pid. oc pid = Terminated) \<longrightarrow> (\<forall>p \<in> set procs1. \<not> matches name p)"
    using K eq by (auto simp: getProcessPids_def)
  show ?thesis using a d K eq by blast
qed

lemma killNames_keep:
  assumes "killNames oc names procs n = (m, procs1, e)"
  shows "(\<forall>p \<in> set procs. (\<exists>name \<in> set names. matches name p)
            \<longrightarrow> KillProcess (th32ProcessID p) \<in> set e)
       \<and> set procs1 \<subseteq> set procs
       \<and> (\<forall>p \<in> set procs. p \<in> set procs1 \<or> KillProcess (th32ProcessID p) \<in> set e)
       \<and> ((\<forall>pid. oc pid = Terminated) \<longrightarrow>
            (\<forall>p \<in> set procs1. \<forall>name \<in> set names. \<not> matches name p))"
  using assms
proof (induction names arbitrary: procs n m procs1 e)
  case Nil
  then show ?case by simp
next
  case (Cons name names)
  obtain k pa ea where k: "killProcessByName oc name procs = (k, pa, ea)"
    by (cases "killProcessByName oc name procs") auto
  obtain mb pb eb where r: "killNames oc names pa (n + k) = (mb, pb, eb)"
    by (cases "killNames oc names pa (n + k)") auto
  have eq: "procs1 = pb" "e = ea @ eb" using Cons.prems k r by simp_all
  note K = killProcessByName_keep [OF k]
  note IH = Cons.IH [OF r]
  have a: "\<forall>p \<in> set procs. (\<exists>x \<in> set (name # names). matches x p)
            \<longrightarrow> KillProcess (th32ProcessID p) \<in> set e"
  proof (intro ballI impI)
    fix p assume p: "p \<in> set procs" and x: "\<exists>x \<in> set (name # names). matches x p"
    show "KillProcess (th32ProcessID p) \<in> set e"
    proof (cases "matches name p")
      case True
      then show ?thesis using K p eq by auto
    next
      case False
      then have later: "\<exists>x \<in> set names. matches x p" using x by simp
      show ?thesis
      proof (cases "p \<in> set pa")
        case True
        then show ?thesis using IH later eq by auto
      next
        case False
        then show ?thesis using K p eq by auto
      qed
    qed
  qed
  have b: "set procs1 \<subseteq> set procs" using K IH eq by blast
  have c: "\<forall>p \<in> set procs. p \<in> set procs1 \<or> KillProcess (th32ProcessID p) \<in> set e"
  proof
    fix p assume p: "p \<in> set procs"
    show "p \<in> set procs1 \<or> KillProcess (th32ProcessID p) \<in> set e"
    proof (cases "p \<in> set pa")
      case True
      then show ?thesis using IH eq by auto
    next
      case False
      then show ?thesis using K p eq by auto
    qed
  qed
  have d: "(\<forall>pid. oc pid = Terminated) \<longrightarrow>
            (\<forall>p \<in> set procs1. \<forall>x \<in> set (name # names). \<not> matches x p)"
  proof (intro impI ballI)
    fix p x assume t: "\<forall>pid. oc pid = Terminated" and p: "p \<in> set procs1"
      and x: "x \<in> set (name # names)"
    have "p \<in> set pa" using p IH eq by blast
    then have "\<not> matches name p" using K t by blast
    moreover have "\<forall>y \<in> set names. \<not> matches y p" using IH t p eq by blast
    ultimately show "\<not> matches x p" using x by auto
  qed
  show ?case using a b c d by blast
qed

lemma isAnyProcessRunning_iff:
  "isAnyProcessRunning names procs = (\<exists>name \<in> set names. \<exists>p \<in> set procs. matches name p)"
  by (induction names) (auto simp: isProcessRunning_def filter_empty_conv)

lemma isGameProcess_iff:
  "isGameProcess p = (\<exists>name \<in> set getLeagueGameProcessNames. matches name p)"
  by (auto simp: isGameProcess_def filter_empty_conv)

lemma checkAndKillGame_kills:
  assumes "checkAndKillGame s i = (s1, procs1, e)"
  shows "\<forall>p \<in> set (processes i). isGameProcess p \<longrightarrow> KillProcess (th32ProcessID p) \<in> set e"
    and "(\<forall>pid. killOutcome i pid = Terminated) \<longrightarrow> (\<forall>p \<in> set procs1. \<not> isGameProcess p)"
proof -
  obtain k pa ea where r:
    "killNames (killOutcome i) getLeagueGameProcessNames (processes i) 0 = (k, pa, ea)"
    by (cases "killNames (killOutcome i) getLeagueGameProcessNames (processes i) 0") auto
  note K = killNames_keep [OF r]
  show "\<forall>p \<in> set (processes i). isGameProcess p \<longrightarrow> KillProcess (th32ProcessID p) \<in> set e"
  proof (intro ballI impI)
    fix p assume p: "p \<in> set (processes i)" and g: "isGameProcess p"
    then have run: "isAnyProcessRunning getLeagueGameProcessNames (processes i)"
      by (auto simp: isAnyProcessRunning_iff isGameProcess_iff)
    have "set ea \<subseteq> set e"
      using assms run r by (auto simp: checkAndKillGame_def killProcessByMultipleNames_def)
    moreover have "KillProcess (th32ProcessID p) \<in> set ea"
      using K p g by (auto simp: isGameProcess_iff)
    ultimately show "KillProcess (th32ProcessID p) \<in> set e" by blast
  qed
  show "(\<forall>pid. killOutcome i pid = Terminated) \<longrightarrow> (\<forall>p \<in> set procs1. \<not> isGameProcess p)"
  proof (cases "isAnyProcessRunning getLeagueGameProcessNames (processes i)")
    case True
    then have "procs1 = pa"
      using assms r by (auto simp: checkAndKillGame_def killProcessByMultipleNames_def)
    then show ?thesis using K by (auto simp: isGameProcess_iff)
  next
    case False
    then have "procs1 = processes i"
      using assms by (auto simp: checkAndKillGame_def)
    then show ?thesis using False by (auto simp: isAnyProcessRunning_iff isGameProcess_iff)
  qed
qed

lemma checkAndKillGame_any_state:
  "snd (checkAndKillGame s i) = snd (checkAndKillGame s' i)"
  by (simp add: checkAndKillGame_def Let_def split: prod.splits)

lemma tick_kill:
  "killFx (snd (tick s t)) = snd (snd (checkAndKillGame s (killIn t)))"
proof -
  obtain a e1 where r: "checkAndRestartClient s (restartIn t) = (a, e1)"
    by (cases "checkAndRestartClient s (restartIn t)")
  obtain b procs e2 where k: "checkAndKillGame a (killIn t) = (b, procs, e2)"
    by (cases "checkAndKillGame a (killIn t)")
  obtain c e3 where c: "checkLeagueProcessCount b (countIn t) = (c, e3)"
    by (cases "checkLeagueProcessCount b (countIn t)")
  obtain d e4 where v: "checkVgcService c (vgcIn t) = (d, e4)"
    by (cases "checkVgcService c (vgcIn t)")
  have "killFx (snd (tick s t)) = e2" by (simp add: tick_def r k c v)
  moreover have "snd (snd (checkAndKillGame s (killIn t))) = e2"
    using checkAndKillGame_any_state [of s "killIn t" a] k by simp
  ultimately show ?thesis by simp
qed

text \<open>
  Claim C5. In every iteration of the loop, whatever the monitor's state, the kill check
  calls \<^verbatim>\<open>killProcess\<close> on every process of the table that one of the game-process aliases
  matches; the calls it makes are the same from any two states of the monitor (the cooldown
  and the flags play no part); and when every termination succeeds no such process is left in
  the table.
\<close>

theorem game_processes_killed_unconditionally:
  "(\<forall>p \<in> set (processes (killIn t)).
       isGameProcess p \<longrightarrow> KillProcess (th32ProcessID p) \<in> set (killFx (snd (tick s t))))
   \<and> killFx (snd (tick s t)) = killFx (snd (tick s' t))
   \<and> ((\<forall>pid. killOutcome (killIn t) pid = Terminated) \<longrightarrow>
        (\<forall>p \<in> set (fst (snd (checkAndKillGame s (killIn t)))). \<not> isGameProcess p))"
proof -
  obtain s1 procs1 e where k: "checkAndKillGame s (killIn t) = (s1, procs1, e)"
    by (cases "checkAndKillGame s (killIn t)")
  note K = checkAndKillGame_kills [OF k]
  have "killFx (snd (tick s t)) = e" using k by (simp add: tick_kill)
  moreover have "killFx (snd (tick s' t)) = e"
    using k checkAndKillGame_any_state [of s' "killIn t" s] by (simp add: tick_kill)
  ultimately show ?thesis using K k by simp
qed

theorem game_processes_killed_unconditionally_witness:
  "KillProcess 77 \<in> set (killFx (snd (tick recentlyRestarted gameTick)))
   \<and> killFx (snd (tick recentlyRestarted gameTick)) = killFx (snd (tick wired gameTick))"
proof -
  let ?p = "\<lparr> th32ProcessID = 77, szExeFile = ''League of Legends.exe'' \<rparr>"
  have g: "isGameProcess ?p"
    by code_simp
  have m: "?p \<in> set (processes (killIn gameTick))"
    by (simp add: gameTick_def)
  note T = game_processes_killed_unconditionally [of gameTick recentlyRestarted wired]
  have "KillProcess (th32ProcessID ?p) \<in> set (killFx (snd (tick recentlyRestarted gameTick)))"
    using T [THEN conjunct1] m g by blast
  moreover have "killFx (snd (tick recentlyRestarted gameTick)) = killFx (snd (tick wired gameTick))"
    using T [THEN conjunct2, THEN conjunct1] .
  ultimately show ?thesis by simp
qed

section \<open>Properties of the relay client\<close>

subsection \<open>Sending, dispatch and the envelope\<close>

lemma map_of_jset: "map_of (jset k v al) = (map_of al)(k \<mapsto> v)"
  by (simp add: jset_def update_conv')

lemma send_ok:
  "connected s \<Longrightarrow> connectionHandle s \<Longrightarrow> send s data SendOk = (s, [Transmit data])"
  by (simp add: send_def)

text \<open>
  Claim C7. While \<^verbatim>\<open>connected_\<close> is false, \<^verbatim>\<open>send\<close> returns the client as it was and makes
  no call, whatever the value to send and whatever the transport would have answered; so does
  \<^verbatim>\<open>sendMessage\<close>, which ends in \<^verbatim>\<open>send\<close>. The function has no exceptional exit: the
  model's result is always a state and a list of calls.
\<close>

theorem send_while_disconnected_is_noop:
  "\<not> connected s \<Longrightarrow> send s data r = (s, []) \<and> sendMessage s type payload i = (s, [])"
  by (simp add: send_def sendMessage_def)

theorem send_while_disconnected_is_noop_witness:
  "send follower0 immediateStartFrame SendOk = (follower0, [])
   \<and> sendMessage follower0 ''STATUS_UPDATE'' (statusData True 8) exampleSend = (follower0, [])"
  using send_while_disconnected_is_noop
          [of follower0 immediateStartFrame SendOk "''STATUS_UPDATE''" "statusData True 8"
             exampleSend]
  by (simp add: follower0_def WebSocketClientImpl_def)

text \<open>
  Claim C6, as amended. For an inbound frame whose type is \<^verbatim>\<open>IMMEDIATE_START\<close>,
  \<^verbatim>\<open>CLIENT_RESTARTED\<close> or \<^verbatim>\<open>GAME_RUNNING_RESTART_REQUEST\<close> the dispatcher invokes the handler
  registered for that type and does nothing else; when none is registered it makes no call at
  all, not even a log statement. In both cases the client's state, the connection state
  included, is the one it had.
\<close>

theorem relay_dispatch_invokes_registered_handler:
  "(value_type msg = Some ''IMMEDIATE_START'' \<longrightarrow>
      handleMessage s i (Some msg)
        = (s, if immediateStartCallback s then [ImmediateStartCallback] else []))
   \<and> (value_type msg = Some ''CLIENT_RESTARTED'' \<longrightarrow>
      handleMessage s i (Some msg)
        = (s, if clientRestartedCallback s then [ClientRestartedCallback] else []))
   \<and> (value_type msg = Some ''GAME_RUNNING_RESTART_REQUEST'' \<longrightarrow>
      handleMessage s i (Some msg)
        = (s, if gameRunningRestartRequestCallback s
              then [GameRunningRestartRequestCallback] else []))"
  by (simp add: handleMessage_def)

theorem relay_dispatch_invokes_registered_handler_witness:
  "handleMessage (follower0\<lparr>immediateStartCallback := True\<rparr>) exampleHandle
     (Some immediateStartFrame)
   = (follower0\<lparr>immediateStartCallback := True\<rparr>, [ImmediateStartCallback])"
  using relay_dispatch_invokes_registered_handler
          [of immediateStartFrame "follower0\<lparr>immediateStartCallback := True\<rparr>" exampleHandle]
  by (simp add: immediateStartFrame_def value_type_def)

text \<open>
  The claim as first stated asks for a warning when no handler is registered. A follower
  without handlers that receives \<^verbatim>\<open>{"type":"IMMEDIATE_START"}\<close> logs nothing.
\<close>

theorem unregistered_handler_logs_nothing:
  "handleMessage follower0 exampleHandle (Some immediateStartFrame) = (follower0, [])"
  by (simp add: handleMessage_def immediateStartFrame_def value_type_def follower0_def
        WebSocketClientImpl_def)

lemma issue_Transmit:
  assumes "connected s" and "connectionHandle s" and "sendResult i = SendOk"
  shows "issue s m i =
     (s\<lparr>sessionToken := knownToken s m\<rparr>,
      [Transmit (envelope (s\<lparr>sessionToken := knownToken s m\<rparr>) (wireType m)
                   (case m of Join token \<Rightarrow> if token \<noteq> [] then [(''sessionToken'', JString token)] else []
                    | other \<Rightarrow> wirePayload m)
                   (wallClock i))])"
  using assms
  by (cases m)
     (simp_all add: issue_def knownToken_def wireType_def wirePayload_def createSession_def
        joinSession_def sendStatus_def broadcastImmediateStart_def broadcastRestart_def
        requestRestartFromController_def sendMessage_def send_def statusData_def)

text \<open>
  Claim C8. Whatever message a connected client sends, the frame carries an object, each key
  once, with the message's type, the timestamp, the sender's role (\<^verbatim>\<open>"controller"\<close> or
  \<^verbatim>\<open>"follower"\<close>) and the members of the payload; it has a \<open>sessionToken\<close> member, holding the
  token, exactly when the client knows a non-empty token, and no member besides these.
  Decoded as the specification's data model describes an envelope, the object gives back the
  type, the timestamp, the role and the payload that went in, and the token as present when
  one is known and as absent when none is; read with the accessors of the dispatcher
  (\<^verbatim>\<open>value("type", "")\<close>, \<^verbatim>\<open>contains\<close>, \<^verbatim>\<open>get<std::string>\<close>) it gives the same type and
  token. The text of the frame is written and parsed by the JSON library the repository
  depends on; the statement is about the value that text stands for.
\<close>

theorem envelope_fields_read_back:
  assumes "connected s" and "connectionHandle s" and "sendResult i = SendOk"
  shows "\<exists>s' members.
      issue s m i = (s', [Transmit (JObject members)])
    \<and> sessionToken s' = knownToken s m
    \<and> distinct (map fst members)
    \<and> map_of members ''type'' = Some (JString (wireType m))
    \<and> map_of members ''timestamp'' = Some (JNumber (wallClock i))
    \<and> map_of members ''role''
        = Some (JString (case role s of CONTROLLER \<Rightarrow> ''controller'' | FOLLOWER \<Rightarrow> ''follower''))
    \<and> map_of members ''sessionToken''
        = (if sessionToken s' = [] then None else Some (JString (sessionToken s')))
    \<and> (\<forall>(key, v) \<in> set (wirePayload m). map_of members key = Some v)
    \<and> fst ` set members
        = {''type'', ''timestamp'', ''role''} \<union> fst ` set (wirePayload m)
          \<union> (if sessionToken s' = [] then {} else {''sessionToken''})
    \<and> specDecode (JObject members)
        = Some \<lparr> envType = wireType m, envTimestamp = wallClock i,
                 envSessionToken = (if sessionToken s' = [] then None
                                    else Some (sessionToken s')),
                 envRole = role s, envPayload = wirePayload m \<rparr>
    \<and> value_type (JObject members) = Some (wireType m)
    \<and> jcontains (JObject members) ''sessionToken'' = (sessionToken s' \<noteq> [])
    \<and> (sessionToken s' \<noteq> [] \<longrightarrow>
          get_string (JObject members) ''sessionToken'' = Some (sessionToken s'))"
  unfolding issue_Transmit [OF assms]
  by (cases m; cases "role s")
     (auto simp: envelope_def knownToken_def wireType_def wirePayload_def jset_def jupdate_def
        value_type_def jcontains_def get_string_def Let_def roleName_def specDecode_def
        specString_def specNumber_def specRole_def specPayload_def)

theorem envelope_fields_read_back_witness:
  "\<exists>s' members.
      issue online (Join ''tok'') exampleSend = (s', [Transmit (JObject members)])
    \<and> sessionToken s' = knownToken online (Join ''tok'')
    \<and> distinct (map fst members)
    \<and> map_of members ''type'' = Some (JString (wireType (Join ''tok'')))
    \<and> map_of members ''timestamp'' = Some (JNumber (wallClock exampleSend))
    \<and> map_of members ''role''
        = Some (JString (case role online of CONTROLLER \<Rightarrow> ''controller''
                         | FOLLOWER \<Rightarrow> ''follower''))
    \<and> map_of members ''sessionToken''
        = (if sessionToken s' = [] then None else Some (JString (sessionToken s')))
    \<and> (\<forall>(key, v) \<in> set (wirePayload (Join ''tok'')). map_of members key = Some v)
    \<and> fst ` set members
        = {''type'', ''timestamp'', ''role''} \<union> fst ` set (wirePayload (Join ''tok''))
          \<union> (if sessionToken s' = [] then {} else {''sessionToken''})
    \<and> specDecode (JObject members)
        = Some \<lparr> envType = wireType (Join ''tok''), envTimestamp = wallClock exampleSend,
                 envSessionToken = (if sessionToken s' = [] then None
                                    else Some (sessionToken s')),
                 envRole = role online, envPayload = wirePayload (Join ''tok'') \<rparr>
    \<and> value_type (JObject members) = Some (wireType (Join ''tok''))
    \<and> jcontains (JObject members) ''sessionToken'' = (sessionToken s' \<noteq> [])
    \<and> (sessionToken s' \<noteq> [] \<longrightarrow>
          get_string (JObject members) ''sessionToken'' = Some (sessionToken s'))"
  by (rule envelope_fields_read_back)
     (simp_all add: online_def follower0_def WebSocketClientImpl_def exampleSend_def)

subsection \<open>Reconnection\<close>

text \<open>
  The open handler clears \<^verbatim>\<open>shouldReconnect_\<close>, and \<^verbatim>\<open>scheduleReconnect\<close> returns at once
  when the flag is clear: a close that follows an open is logged and nothing more.
\<close>

lemma send_keeps_flags:
  "shouldReconnect (fst (send s data r)) = shouldReconnect s"
  "connected (fst (send s data r)) = connected s"
  by (simp_all add: send_def split: send_result.splits)

lemma sendMessage_keeps_shouldReconnect:
  "shouldReconnect (fst (sendMessage s type data i)) = shouldReconnect s"
  by (simp add: sendMessage_def send_keeps_flags)

lemma joinSession_keeps_shouldReconnect:
  "shouldReconnect (fst (joinSession s token i)) = shouldReconnect s"
  by (simp add: joinSession_def sendMessage_keeps_shouldReconnect)

lemma openHandler_clears_shouldReconnect: "\<not> shouldReconnect (fst (openHandler s i))"
  by (simp add: openHandler_def Let_def case_prod_beta joinSession_keeps_shouldReconnect)

lemma close_without_reconnect:
  "\<not> shouldReconnect s \<Longrightarrow>
   closeHandler s r
     = (s\<lparr>connected := False, connectionHandle := False\<rparr>, [RLog Warn DisconnectedFromRelay])"
  by (simp add: closeHandler_def scheduleReconnect_def)

lemma fail_without_reconnect:
  "\<not> shouldReconnect s \<Longrightarrow>
   failHandler s r
     = (s\<lparr>connected := False, connectionHandle := False\<rparr>, [RLog Error ConnectionFailed])"
  by (simp add: failHandler_def scheduleReconnect_def)

lemma close_after_open:
  "snd (closeHandler (fst (openHandler s i)) r) = [RLog Warn DisconnectedFromRelay]"
  using close_without_reconnect [OF openHandler_clears_shouldReconnect, of s i r] by simp

text \<open>
  A connection failure that no open has preceded does lead to a new attempt with the token
  the client knows, after the five seconds.
\<close>

lemma fail_before_open_reconnects:
  assumes "shouldReconnect s"
  shows "snd (failHandler s ConnOk)
           = [RLog Error ConnectionFailed, Backoff 5000, RLog Info AttemptingReconnect,
              GetConnection (serverUrl s), Connect]
             @ (if workerJoinable s then [] else [StartWorker])"
    and "sessionToken (fst (failHandler s ConnOk)) = sessionToken s"
  using assms by (simp_all add: failHandler_def scheduleReconnect_def connect_def Let_def)

text \<open>
  \<^verbatim>\<open>disconnect\<close> clears the flag, and neither a handler of the endpoint nor the dispatcher
  sets it again.
\<close>

lemma disconnect_clears_shouldReconnect: "\<not> shouldReconnect (fst (disconnect s))"
  by (simp add: disconnect_def Let_def split: prod.splits)

lemma handleMessage_keeps_shouldReconnect:
  "shouldReconnect (fst (handleMessage s i frame)) = shouldReconnect s"
  by (simp add: handleMessage_def sendMessage_keeps_shouldReconnect Let_def case_prod_beta
        split: option.splits)

text \<open>
  Claim C3, at the input where the program departs from it: a follower connects with the
  token \<open>tok\<close>, the connection opens, then closes without \<^verbatim>\<open>disconnect\<close> having been called.
  The close handler logs the disconnect; it does not sleep, does not call \<^verbatim>\<open>connect\<close>, and
  leaves \<^verbatim>\<open>shouldReconnect_\<close> false.
\<close>

theorem unexpected_close_after_open_no_reconnect:
  "snd (closeHandler
          (fst (openHandler (fst (snd (connect follower0 ''tok'' ConnOk))) exampleSend)) ConnOk)
     = [RLog Warn DisconnectedFromRelay]
   \<and> \<not> shouldReconnect
         (fst (closeHandler
                 (fst (openHandler (fst (snd (connect follower0 ''tok'' ConnOk))) exampleSend))
                 ConnOk))"
  by (simp add: close_without_reconnect openHandler_clears_shouldReconnect)

end
